theory Spec2Isabelle
  imports Complex_Main "HOL-Library.Multiset"
begin

section \<open>The SLA monitoring dashboard: data pipeline of \<open>js/app.js\<close>\<close>

text \<open>
  The development embeds the data pipeline of class \<open>SLAMonitoringApp\<close>: ingestion
  (\<open>loadData\<close>), enrichment (\<open>processData\<close>, \<open>parseDate\<close>), filtering
  (\<open>applyFilters\<close>), sorting (\<open>sortTable\<close>), statistics (\<open>updateStatistics\<close>)
  and export (\<open>exportToCSV\<close>). DOM updates are left out; what the code computes before
  it writes to the DOM is kept.

  Conventions of the embedding:
  \<^item> A JavaScript number is a value of \<open>num\<close>: \<open>NaN\<close>, one of the two infinities, or
    \<open>Fin r\<close>, the double whose exact value is the real \<open>r\<close>. Arithmetic and the
    reading of decimal text round the exact result to the nearest double, ties to even,
    with overflow to the infinities and underflow to 0, as IEEE 754 prescribes. The two
    zeros are one value: the code never divides by a zero, and the texts of \<open>0\<close> and
    \<open>-0\<close> are the same, so the sign of a zero is not observed.
  \<^item> A string is a \<open>char list\<close>; the code units of the source are idealised as bytes.
  \<^item> A \<open>TypeError\<close> of the runtime is a value \<open>Inl e\<close> of the result type.
  \<^item> Built-ins whose result depends on the runtime (the local time zone, \<open>Date.parse\<close>
    on free text, \<open>Number::toString\<close>, \<open>toLowerCase\<close>) are fields of a parameter
    \<open>env\<close>.
\<close>

subsection \<open>Numbers\<close>

datatype num = NaN | Fin real | PInf | NInf

fun num_neg :: "num \<Rightarrow> num" where
  "num_neg NaN = NaN"
| "num_neg (Fin a) = Fin (- a)"
| "num_neg PInf = NInf"
| "num_neg NInf = PInf"

text \<open>
  Rounding a real to the nearest double. A positive \<open>a\<close> lies between \<open>2^e\<close> and
  \<open>2^(e+1)\<close> for \<open>e = exponent_of a\<close>; the doubles there are the multiples of
  \<open>2^(e-52)\<close>, and below \<open>2^-1022\<close> the multiples of \<open>2^-1074\<close>. The nearest multiple
  is taken, the even one of two; a result of \<open>2^1024\<close> is an infinity. A negative
  number rounds as its magnitude does.
\<close>

definition pow2 :: "int \<Rightarrow> real" where
  "pow2 k = (if 0 \<le> k then 2 ^ nat k else 1 / 2 ^ nat (- k))"

function bit_length :: "int \<Rightarrow> int" where
  "bit_length n = (if n \<le> 0 then 0 else 1 + bit_length (n div 2))"
  by pat_completeness auto
termination
  by (relation "measure nat") auto

declare bit_length.simps [simp del]

definition exponent_of :: "real \<Rightarrow> int" where
  "exponent_of x =
     (if 1 \<le> x then bit_length \<lfloor>x\<rfloor> - 1 else - bit_length (\<lceil>1 / x\<rceil> - 1))"

definition round_half_even :: "real \<Rightarrow> int" where
  "round_half_even q =
     (let f = \<lfloor>q\<rfloor>; r = q - of_int f
      in if r < 1 / 2 then f else if 1 / 2 < r then f + 1 else if even f then f else f + 1)"

definition round_magnitude :: "real \<Rightarrow> num" where
  "round_magnitude a =
     (if a \<le> pow2 (- 1075) then Fin 0
      else if pow2 1024 \<le> a then PInf
      else
        (let e = max (exponent_of a) (- 1022);
             ulp = pow2 (e - 52);
             m = round_half_even (a / ulp)
         in if e = 1023 \<and> 2 ^ 53 \<le> m then PInf else Fin (of_int m * ulp)))"

definition nearest_double :: "real \<Rightarrow> num" where
  "nearest_double x = (if x < 0 then num_neg (round_magnitude (- x)) else round_magnitude x)"

text \<open>
  The operators \<open>+\<close>, \<open>-\<close>, \<open>*\<close> and \<open>/\<close>: on two finite numbers the exact result,
  rounded.
\<close>

fun num_add :: "num \<Rightarrow> num \<Rightarrow> num" where
  "num_add (Fin a) (Fin b) = nearest_double (a + b)"
| "num_add NaN _ = NaN"
| "num_add _ NaN = NaN"
| "num_add PInf NInf = NaN"
| "num_add NInf PInf = NaN"
| "num_add PInf _ = PInf"
| "num_add _ PInf = PInf"
| "num_add NInf _ = NInf"
| "num_add _ NInf = NInf"

definition num_sub :: "num \<Rightarrow> num \<Rightarrow> num" where
  "num_sub a b = num_add a (num_neg b)"

text \<open>The sign of a number that is not \<open>NaN\<close>: \<open>-1\<close>, \<open>0\<close> or \<open>1\<close>.\<close>

fun num_sgn :: "num \<Rightarrow> int" where
  "num_sgn NaN = 0"
| "num_sgn (Fin a) = (if a < 0 then - 1 else if a = 0 then 0 else 1)"
| "num_sgn PInf = 1"
| "num_sgn NInf = - 1"

definition inf_of_sgn :: "int \<Rightarrow> num" where
  "inf_of_sgn s = (if s < 0 then NInf else PInf)"

fun num_mul :: "num \<Rightarrow> num \<Rightarrow> num" where
  "num_mul (Fin a) (Fin b) = nearest_double (a * b)"
| "num_mul NaN _ = NaN"
| "num_mul _ NaN = NaN"
| "num_mul a b =
     (if num_sgn a * num_sgn b = 0 then NaN else inf_of_sgn (num_sgn a * num_sgn b))"

fun num_div :: "num \<Rightarrow> num \<Rightarrow> num" where
  "num_div NaN _ = NaN"
| "num_div _ NaN = NaN"
| "num_div (Fin a) (Fin b) =
     (if b = 0 then (if a = 0 then NaN else inf_of_sgn (num_sgn (Fin a)))
      else nearest_double (a / b))"
| "num_div (Fin a) _ = Fin 0"
| "num_div a (Fin b) = inf_of_sgn (num_sgn a * (if b < 0 then - 1 else 1))"
| "num_div _ _ = NaN"

text \<open>The relational operators \<open><\<close> and \<open>></\<close> on numbers: false when a side is \<open>NaN\<close>.\<close>

fun num_lt :: "num \<Rightarrow> num \<Rightarrow> bool" where
  "num_lt NaN _ = False"
| "num_lt _ NaN = False"
| "num_lt (Fin a) (Fin b) = (a < b)"
| "num_lt NInf NInf = False"
| "num_lt NInf _ = True"
| "num_lt _ NInf = False"
| "num_lt PInf _ = False"
| "num_lt _ PInf = True"

definition num_gt :: "num \<Rightarrow> num \<Rightarrow> bool" where
  "num_gt a b = num_lt b a"

text \<open>\<open>Math.ceil\<close>.\<close>

fun num_ceil :: "num \<Rightarrow> num" where
  "num_ceil (Fin a) = Fin (of_int \<lceil>a\<rceil>)"
| "num_ceil x = x"

text \<open>Truthiness of a number, and \<open>x || 0\<close>.\<close>

fun num_truthy :: "num \<Rightarrow> bool" where
  "num_truthy NaN = False"
| "num_truthy (Fin a) = (a \<noteq> 0)"
| "num_truthy _ = True"

definition or_zero :: "num \<Rightarrow> num" where
  "or_zero x = (if num_truthy x then x else Fin 0)"

subsection \<open>Values\<close>

text \<open>
  The result of \<open>response.json()\<close>, and the value of a raw field. A decoded number is
  a double; \<open>JNum\<close> holds its exact value.
\<close>

datatype json =
    JNull
  | JBool bool
  | JNum real
  | JStr string
  | JArr "json list"
  | JObj "(string \<times> json) list"

text \<open>A \<open>Date\<close> object holds a time value (milliseconds since the epoch, UTC) or \<open>NaN\<close>.\<close>

datatype jsdate = InvalidDate | ValidDate int

text \<open>The values a property read or a sort key can be.\<close>

datatype jsval = VUndef | VJson json | VNum num | VDate jsdate

datatype error = CannotReadProperty string | NotAFunction string

record env =
  localTZA :: "int \<Rightarrow> int"
  dateParse :: "string \<Rightarrow> jsdate"
  numberToString :: "real \<Rightarrow> string"
  toLowerCase :: "string \<Rightarrow> string"

fun json_truthy :: "json \<Rightarrow> bool" where
  "json_truthy JNull = False"
| "json_truthy (JBool b) = b"
| "json_truthy (JNum x) = (x \<noteq> 0)"
| "json_truthy (JStr s) = (s \<noteq> [])"
| "json_truthy (JArr _) = True"
| "json_truthy (JObj _) = True"

text \<open>
  \<open>item.name\<close> for one of the fixed property names the code reads: a \<open>TypeError\<close> on
  \<open>null\<close>, the own property of an object, \<open>undefined\<close> on every other value (none of
  the names read is a property of a number, boolean, string or array).
\<close>

fun get_prop :: "json \<Rightarrow> string \<Rightarrow> error + json option" where
  "get_prop JNull name = Inl (CannotReadProperty name)"
| "get_prop (JObj kvs) name = Inr (map_of kvs name)"
| "get_prop _ name = Inr None"

subsection \<open>Strings: \<open>split\<close>, \<open>includes\<close>, \<open>parseInt\<close>, \<open>parseFloat\<close>\<close>

fun split_on :: "char \<Rightarrow> string \<Rightarrow> string list" where
  "split_on c [] = [[]]"
| "split_on c (x # xs) =
     (if x = c then [] # split_on c xs
      else (case split_on c xs of [] \<Rightarrow> [[x]] | p # ps \<Rightarrow> (x # p) # ps))"

fun starts_with :: "string \<Rightarrow> string \<Rightarrow> bool" where
  "starts_with s [] = True"
| "starts_with [] (c # cs) = False"
| "starts_with (x # xs) (c # cs) = (x = c \<and> starts_with xs cs)"

fun str_includes :: "string \<Rightarrow> string \<Rightarrow> bool" where
  "str_includes [] sub = (sub = [])"
| "str_includes (x # xs) sub = (starts_with (x # xs) sub \<or> str_includes xs sub)"

definition is_space :: "char \<Rightarrow> bool" where
  "is_space c = (of_char c \<in> {9, 10, 11, 12, 13, 32 :: nat})"

definition is_digit :: "char \<Rightarrow> bool" where
  "is_digit c = (48 \<le> (of_char c :: nat) \<and> (of_char c :: nat) \<le> 57)"

definition digit_val :: "char \<Rightarrow> nat" where
  "digit_val c = of_char c - 48"

text \<open>The value of a hexadecimal digit, if the character is one.\<close>

definition hex_val :: "char \<Rightarrow> nat option" where
  "hex_val c =
     (let n = (of_char c :: nat) in
      if 48 \<le> n \<and> n \<le> 57 then Some (n - 48)
      else if 65 \<le> n \<and> n \<le> 70 then Some (n - 55)
      else if 97 \<le> n \<and> n \<le> 102 then Some (n - 87)
      else None)"

fun digits_val :: "nat \<Rightarrow> string \<Rightarrow> nat" where
  "digits_val acc [] = acc"
| "digits_val acc (c # cs) = digits_val (acc * 10 + digit_val c) cs"

fun hex_digits_val :: "nat \<Rightarrow> string \<Rightarrow> nat" where
  "hex_digits_val acc [] = acc"
| "hex_digits_val acc (c # cs) =
     (case hex_val c of None \<Rightarrow> acc | Some d \<Rightarrow> hex_digits_val (acc * 16 + d) cs)"

definition is_hex :: "char \<Rightarrow> bool" where
  "is_hex c = (hex_val c \<noteq> None)"

text \<open>
  \<open>parseInt(s)\<close> with no radix: leading white space is skipped, a sign is read, a
  prefix \<open>0x\<close> or \<open>0X\<close> selects radix 16, and the longest run of digits is the value;
  \<open>NaN\<close> when that run is empty. White space is the ASCII part of what the language
  counts as such.
\<close>

definition parseInt_unsigned :: "string \<Rightarrow> num" where
  "parseInt_unsigned s =
     (if starts_with s ''0x'' \<or> starts_with s ''0X'' then
        (let ds = takeWhile is_hex (drop 2 s) in
         if ds = [] then NaN else nearest_double (of_nat (hex_digits_val 0 ds)))
      else
        (let ds = takeWhile is_digit s in
         if ds = [] then NaN else nearest_double (of_nat (digits_val 0 ds))))"

definition parseInt :: "string \<Rightarrow> num" where
  "parseInt s =
     (case dropWhile is_space s of
        [] \<Rightarrow> NaN
      | c # cs \<Rightarrow>
          if c = CHR ''-'' then num_neg (parseInt_unsigned cs)
          else if c = CHR ''+'' then parseInt_unsigned cs
          else parseInt_unsigned (c # cs))"

text \<open>
  The longest prefix of a string that is an unsigned decimal literal
  (\<open>Infinity\<close>, \<open>digits[.digits][exponent]\<close> or \<open>.digits[exponent]\<close>), with its value,
  the double nearest to the decimal number, and the rest of the string.
\<close>

definition scale10 :: "real \<Rightarrow> int \<Rightarrow> real" where
  "scale10 m e = (if 0 \<le> e then m * 10 ^ nat e else m / 10 ^ nat (- e))"

definition exponent_part :: "string \<Rightarrow> int \<times> string" where
  "exponent_part s =
     (case s of
        [] \<Rightarrow> (0, s)
      | c # cs \<Rightarrow>
          if c = CHR ''e'' \<or> c = CHR ''E'' then
            (let (neg, ds) =
                   (case cs of
                      [] \<Rightarrow> (False, cs)
                    | d # r \<Rightarrow>
                        if d = CHR ''-'' then (True, r)
                        else if d = CHR ''+'' then (False, r)
                        else (False, cs))
             in if takeWhile is_digit ds = [] then (0, s)
                else ((if neg then - 1 else 1) * int (digits_val 0 (takeWhile is_digit ds)),
                      dropWhile is_digit ds))
          else (0, s))"

definition decimal_prefix :: "string \<Rightarrow> (num \<times> string) option" where
  "decimal_prefix s =
     (if starts_with s ''Infinity'' then Some (PInf, drop 8 s)
      else
        (let ip = takeWhile is_digit s;
             r1 = dropWhile is_digit s;
             dot = starts_with r1 ''.'';
             fp = (if dot then takeWhile is_digit (tl r1) else []);
             r2 = (if dot then dropWhile is_digit (tl r1) else r1)
         in if ip = [] \<and> fp = [] then None
            else
              (let (e, r3) = exponent_part r2
               in Some (nearest_double
                          (scale10 (of_nat (digits_val 0 (ip @ fp))) (e - int (length fp))),
                        r3))))"

definition signed_decimal_prefix :: "string \<Rightarrow> (num \<times> string) option" where
  "signed_decimal_prefix s =
     (case s of
        [] \<Rightarrow> None
      | c # cs \<Rightarrow>
          if c = CHR ''-'' then map_option (\<lambda>(v, r). (num_neg v, r)) (decimal_prefix cs)
          else if c = CHR ''+'' then decimal_prefix cs
          else decimal_prefix (c # cs))"

text \<open>\<open>parseFloat\<close> of a string.\<close>

definition parseFloat_str :: "string \<Rightarrow> num" where
  "parseFloat_str s =
     (case signed_decimal_prefix (dropWhile is_space s) of
        None \<Rightarrow> NaN
      | Some (v, _) \<Rightarrow> v)"

text \<open>
  \<open>parseFloat(v)\<close> of a decoded value: \<open>parseFloat\<close> of its string form. A number
  reads back as itself; the string form of an array starts with that of its first
  element, followed by a comma, which ends every numeric prefix.
\<close>

fun parseFloat_json :: "json \<Rightarrow> num" where
  "parseFloat_json JNull = NaN"
| "parseFloat_json (JBool b) = NaN"
| "parseFloat_json (JNum x) = Fin x"
| "parseFloat_json (JStr s) = parseFloat_str s"
| "parseFloat_json (JArr []) = NaN"
| "parseFloat_json (JArr (x # xs)) = parseFloat_json x"
| "parseFloat_json (JObj kvs) = NaN"

fun parseFloat :: "jsval \<Rightarrow> num" where
  "parseFloat VUndef = NaN"
| "parseFloat (VJson j) = parseFloat_json j"
| "parseFloat (VNum n) = n"
| "parseFloat (VDate d) = NaN"

definition opt_val :: "json option \<Rightarrow> jsval" where
  "opt_val v = (case v of None \<Rightarrow> VUndef | Some j \<Rightarrow> VJson j)"

subsection \<open>Number to string: \<open>toFixed(2)\<close> and template literals\<close>

definition digit_char :: "nat \<Rightarrow> char" where
  "digit_char d =
     (if d = 0 then CHR ''0'' else if d = 1 then CHR ''1'' else if d = 2 then CHR ''2''
      else if d = 3 then CHR ''3'' else if d = 4 then CHR ''4'' else if d = 5 then CHR ''5''
      else if d = 6 then CHR ''6'' else if d = 7 then CHR ''7'' else if d = 8 then CHR ''8''
      else CHR ''9'')"

function digits_of :: "nat \<Rightarrow> string" where
  "digits_of n =
     (if n < 10 then [digit_char n]
      else digits_of (n div 10) @ [digit_char (n mod 10)])"
  by pat_completeness auto
termination
  by (relation "measure id") auto

declare digits_of.simps [simp del]

definition num_to_string :: "env \<Rightarrow> num \<Rightarrow> string" where
  "num_to_string env x =
     (case x of
        NaN \<Rightarrow> ''NaN''
      | PInf \<Rightarrow> ''Infinity''
      | NInf \<Rightarrow> ''-Infinity''
      | Fin r \<Rightarrow> numberToString env r)"

text \<open>
  \<open>x.toFixed(2)\<close>: the string form of \<open>x\<close> when \<open>x\<close> is not finite or
  \<open>|x| \<ge> 10^21\<close>; otherwise the sign, and the integer \<open>n\<close> nearest to \<open>100 |x|\<close> (the
  larger of two) written with at least three digits and a point before the last two.
\<close>

definition toFixed2 :: "env \<Rightarrow> num \<Rightarrow> string" where
  "toFixed2 env x =
     (case x of
        Fin r \<Rightarrow>
          if 10 ^ 21 \<le> \<bar>r\<bar> then numberToString env r
          else
            (let ds = digits_of (nat \<lfloor>\<bar>r\<bar> * 100 + 1 / 2\<rfloor>);
                 m = replicate (3 - length ds) (CHR ''0'') @ ds
             in (if r < 0 then ''-'' else []) @
                take (length m - 2) m @ ''.'' @ drop (length m - 2) m)
      | _ \<Rightarrow> num_to_string env x)"

subsection \<open>Dates\<close>

fun date_num :: "jsdate \<Rightarrow> num" where
  "date_num InvalidDate = NaN"
| "date_num (ValidDate t) = Fin (of_int t)"

definition msPerDay :: int where
  "msPerDay = 86400000"

definition dayFromYear :: "int \<Rightarrow> int" where
  "dayFromYear y =
     365 * (y - 1970) + (y - 1969) div 4 - (y - 1901) div 100 + (y - 1601) div 400"

definition inLeapYear :: "int \<Rightarrow> bool" where
  "inLeapYear y = (y mod 4 = 0 \<and> (y mod 100 \<noteq> 0 \<or> y mod 400 = 0))"

text \<open>The day within the year on which month \<open>m\<close> (0 to 11) starts.\<close>

definition monthStart :: "bool \<Rightarrow> int \<Rightarrow> int" where
  "monthStart leap m =
     (if m = 0 then 0
      else if m = 1 then 31
      else [59, 90, 120, 151, 181, 212, 243, 273, 304, 334] ! nat (m - 2)
           + (if leap then 1 else 0))"

definition makeDay :: "int \<Rightarrow> int \<Rightarrow> int \<Rightarrow> int" where
  "makeDay year month date =
     (let ym = year + month div 12;
          mn = month mod 12
      in dayFromYear ym + monthStart (inLeapYear ym) mn + date - 1)"

definition timeClip :: "int \<Rightarrow> jsdate" where
  "timeClip t = (if 8640000000000000 < \<bar>t\<bar> then InvalidDate else ValidDate t)"

definition to_integer :: "real \<Rightarrow> int" where
  "to_integer x = (if 0 \<le> x then \<lfloor>x\<rfloor> else \<lceil>x\<rceil>)"

text \<open>
  \<open>new Date(year, month, day)\<close>: an invalid date when an argument is not finite; years 0
  to 99 mean 1900 to 1999; month and day are not range-checked, they carry over; the
  result is local midnight, converted to UTC and clipped to the range of time values.
\<close>

definition newDate3 :: "env \<Rightarrow> num \<Rightarrow> num \<Rightarrow> num \<Rightarrow> jsdate" where
  "newDate3 env year month day =
     (case (year, month, day) of
        (Fin y, Fin m, Fin d) \<Rightarrow>
          (let yi = to_integer y;
               yr = (if 0 \<le> yi \<and> yi \<le> 99 then 1900 + yi else yi);
               t = makeDay yr (to_integer m) (to_integer d) * msPerDay
           in timeClip (t - localTZA env t))
      | _ \<Rightarrow> InvalidDate)"

text \<open>\<open>new Date(text)\<close>: the runtime's \<open>Date.parse\<close>.\<close>

definition newDateStr :: "env \<Rightarrow> string \<Rightarrow> jsdate" where
  "newDateStr env s = dateParse env s"

text \<open>
  \<open>parseDate(dateString)\<close>, where \<open>dateString\<close> is \<open>item.poDate\<close> or
  \<open>item.receivedDate\<close> (\<open>None\<close> is \<open>undefined\<close>). A truthy value that is not a
  string has no \<open>split\<close> method.
\<close>

definition parseDate :: "env \<Rightarrow> json option \<Rightarrow> error + jsdate option" where
  "parseDate env dateString =
     (case dateString of
        None \<Rightarrow> Inr None
      | Some v \<Rightarrow>
          if \<not> json_truthy v then Inr None
          else
            (case v of
               JStr s \<Rightarrow>
                 (case split_on (CHR ''/'') s of
                    [p0, p1, p2] \<Rightarrow>
                      (let day = parseInt p0;
                           month = num_sub (parseInt p1) (Fin 1);
                           year = parseInt p2
                       in Inr (Some (newDate3 env year month day)))
                  | _ \<Rightarrow>
                      (let date = newDateStr env s
                       in Inr (if date_num date = NaN then None else Some date)))
             | _ \<Rightarrow> Inl (NotAFunction ''split'')))"

subsection \<open>Enrichment: \<open>processData\<close>\<close>

record erecord =
  raw :: "(string \<times> json) list"
  sla :: num
  avgDays :: num
  poDateObj :: "jsdate option"
  receivedDateObj :: "jsdate option"

definition bind_err :: "error + 'a \<Rightarrow> ('a \<Rightarrow> error + 'b) \<Rightarrow> error + 'b" where
  "bind_err m f = (case m of Inl e \<Rightarrow> Inl e | Inr x \<Rightarrow> f x)"

fun map_err :: "('a \<Rightarrow> error + 'b) \<Rightarrow> 'a list \<Rightarrow> error + 'b list" where
  "map_err f [] = Inr []"
| "map_err f (x # xs) =
     bind_err (f x) (\<lambda>y. bind_err (map_err f xs) (\<lambda>ys. Inr (y # ys)))"

text \<open>
  The own enumerable properties that \<open>{...item}\<close> copies: the members of an object,
  the indexed elements of an array or a string, nothing of another value. A decoded
  object lists each key once.
\<close>

definition indexed :: "'a list \<Rightarrow> (string \<times> 'a) list" where
  "indexed xs = map (\<lambda>(i, x). (digits_of i, x)) (enumerate 0 xs)"

fun spread :: "json \<Rightarrow> (string \<times> json) list" where
  "spread (JObj kvs) = kvs"
| "spread (JArr xs) = indexed xs"
| "spread (JStr s) = indexed (map (\<lambda>c. JStr [c]) s)"
| "spread _ = []"

text \<open>The body of the arrow function that \<open>processData\<close> maps over \<open>this.data\<close>.\<close>

definition processItem :: "env \<Rightarrow> json \<Rightarrow> error + erecord" where
  "processItem env item =
     bind_err (get_prop item ''poValue'') (\<lambda>pv.
     bind_err (get_prop item ''receivedValue'') (\<lambda>rv.
       let poValue = or_zero (parseFloat (opt_val pv));
           receivedValue = or_zero (parseFloat (opt_val rv));
           sla0 = (if num_gt poValue (Fin 0)
                   then num_mul (num_div receivedValue poValue) (Fin 100) else Fin 0)
       in
     bind_err (get_prop item ''poDate'') (\<lambda>pd.
     bind_err (parseDate env pd) (\<lambda>poDate.
     bind_err (get_prop item ''receivedDate'') (\<lambda>rd.
     bind_err (parseDate env rd) (\<lambda>receivedDate.
       let days = (case (poDate, receivedDate) of
                     (Some p, Some r) \<Rightarrow>
                       num_ceil (num_div (num_sub (date_num r) (date_num p))
                                         (Fin (1000 * 60 * 60 * 24)))
                   | _ \<Rightarrow> Fin 0)
       in Inr \<lparr> raw = spread item,
                sla = parseFloat_str (toFixed2 env sla0),
                avgDays = days,
                poDateObj = poDate,
                receivedDateObj = receivedDate \<rparr>))))))"

text \<open>\<open>this.data.map(...)\<close>: only an array has the method.\<close>

definition processData :: "env \<Rightarrow> json \<Rightarrow> error + erecord list" where
  "processData env d =
     (case d of
        JArr items \<Rightarrow> map_err (processItem env) items
      | JNull \<Rightarrow> Inl (CannotReadProperty ''map'')
      | _ \<Rightarrow> Inl (NotAFunction ''map''))"

subsection \<open>The application state\<close>

datatype direction = Asc | Desc

record app =
  data :: "erecord list"
  filteredData :: "erecord list"
  sortColumn :: "string option"
  sortDirection :: direction

text \<open>The state the constructor builds.\<close>

definition initial :: app where
  "initial = \<lparr> data = [], filteredData = [], sortColumn = None, sortDirection = Asc \<rparr>"

subsection \<open>Filtering: \<open>applyFilters\<close>\<close>

text \<open>The values of the seven filter inputs, as the DOM holds them.\<close>

record filters =
  poDateFrom :: string
  poDateTo :: string
  rcvDateFrom :: string
  rcvDateTo :: string
  supplierSearch :: string
  contractSearch :: string
  itemCodeSearch :: string

definition noFilters :: filters where
  "noFilters = \<lparr> poDateFrom = [], poDateTo = [], rcvDateFrom = [], rcvDateTo = [],
                  supplierSearch = [], contractSearch = [], itemCodeSearch = [] \<rparr>"

text \<open>\<open>a < b\<close> and \<open>a > b\<close> on two \<open>Date\<close> objects compare their time values.\<close>

definition date_lt :: "jsdate \<Rightarrow> jsdate \<Rightarrow> bool" where
  "date_lt a b = num_lt (date_num a) (date_num b)"

definition date_gt :: "jsdate \<Rightarrow> jsdate \<Rightarrow> bool" where
  "date_gt a b = num_gt (date_num a) (date_num b)"

text \<open>
  \<open>search && !item.name.toLowerCase().includes(search)\<close>, with \<open>search\<close> already in
  lower case: the field is read only when \<open>search\<close> is not empty, and only a string has
  the method \<open>toLowerCase\<close>.
\<close>

definition text_rejects :: "env \<Rightarrow> string \<Rightarrow> erecord \<Rightarrow> string \<Rightarrow> error + bool" where
  "text_rejects env search item name =
     (if search = [] then Inr False
      else
        (case map_of (raw item) name of
           Some (JStr s) \<Rightarrow> Inr (\<not> str_includes (toLowerCase env s) search)
         | None \<Rightarrow> Inl (CannotReadProperty ''toLowerCase'')
         | Some JNull \<Rightarrow> Inl (CannotReadProperty ''toLowerCase'')
         | Some _ \<Rightarrow> Inl (NotAFunction ''toLowerCase'')))"

text \<open>
  \<open>item.poDateObj && item.poDateObj < bound\<close> and its counterpart with \<open>></\<close>: false
  when the date object is \<open>null\<close>.
\<close>

fun date_before :: "jsdate option \<Rightarrow> jsdate \<Rightarrow> bool" where
  "date_before None bound = False"
| "date_before (Some d) bound = date_lt d bound"

fun date_after :: "jsdate option \<Rightarrow> jsdate \<Rightarrow> bool" where
  "date_after None bound = False"
| "date_after (Some d) bound = date_gt d bound"

text \<open>The predicate passed to \<open>this.data.filter\<close>; the three needles are in lower case.\<close>

definition filterItem ::
  "env \<Rightarrow> filters \<Rightarrow> string \<Rightarrow> string \<Rightarrow> string \<Rightarrow> erecord \<Rightarrow> error + bool" where
  "filterItem env f supplier contract itemCode item =
     (if poDateFrom f \<noteq> [] \<and>
         date_before (poDateObj item) (newDateStr env (poDateFrom f)) then Inr False
      else if poDateTo f \<noteq> [] \<and>
         date_after (poDateObj item) (newDateStr env (poDateTo f)) then Inr False
      else if rcvDateFrom f \<noteq> [] \<and>
         date_before (receivedDateObj item) (newDateStr env (rcvDateFrom f)) then Inr False
      else if rcvDateTo f \<noteq> [] \<and>
         date_after (receivedDateObj item) (newDateStr env (rcvDateTo f)) then Inr False
      else
        bind_err (text_rejects env supplier item ''supplierName'') (\<lambda>r1.
          if r1 then Inr False
          else bind_err (text_rejects env contract item ''contract'') (\<lambda>r2.
            if r2 then Inr False
            else bind_err (text_rejects env itemCode item ''itemCode'') (\<lambda>r3.
              Inr (\<not> r3)))))"

fun filter_err :: "('a \<Rightarrow> error + bool) \<Rightarrow> 'a list \<Rightarrow> error + 'a list" where
  "filter_err p [] = Inr []"
| "filter_err p (x # xs) =
     bind_err (p x) (\<lambda>b. bind_err (filter_err p xs) (\<lambda>ys. Inr (if b then x # ys else ys)))"

definition applyFilters :: "env \<Rightarrow> filters \<Rightarrow> app \<Rightarrow> error + app" where
  "applyFilters env f s =
     (let supplier = toLowerCase env (supplierSearch f);
          contract = toLowerCase env (contractSearch f);
          itemCode = toLowerCase env (itemCodeSearch f)
      in bind_err (filter_err (filterItem env f supplier contract itemCode) (data s))
           (\<lambda>kept. Inr (s\<lparr>filteredData := kept\<rparr>)))"

subsection \<open>Statistics: \<open>updateStatistics\<close>\<close>

text \<open>
  The members of \<open>new Set(...)\<close> are compared by \<open>SameValueZero\<close>: \<open>undefined\<close>,
  \<open>null\<close>, booleans, numbers and strings by value, an array or an object by identity.
  Every record holds its own decoded value, so the array or object of the record at
  position \<open>i\<close> is identified by \<open>i\<close>.
\<close>

datatype set_key = KUndef | KPrim json | KRef nat

definition set_key_of :: "nat \<Rightarrow> json option \<Rightarrow> set_key" where
  "set_key_of i v =
     (case v of
        None \<Rightarrow> KUndef
      | Some (JArr xs) \<Rightarrow> KRef i
      | Some (JObj kvs) \<Rightarrow> KRef i
      | Some j \<Rightarrow> KPrim j)"

definition po_keys :: "erecord list \<Rightarrow> set_key list" where
  "po_keys rs = map (\<lambda>(i, item). set_key_of i (map_of (raw item) ''nomorPO'')) (enumerate 0 rs)"

record statistics =
  totalPO :: nat
  totalItems :: nat
  avgSLA :: num
  avgDaysAll :: num

definition updateStatistics :: "app \<Rightarrow> statistics" where
  "updateStatistics s =
     \<lparr> totalPO = length (remdups (po_keys (filteredData s))),
       totalItems = length (filteredData s),
       avgSLA = (if length (filteredData s) > 0
                 then num_div (foldl (\<lambda>sum item. num_add sum (sla item)) (Fin 0) (filteredData s))
                              (Fin (of_nat (length (filteredData s))))
                 else Fin 0),
       avgDaysAll = (if length (filteredData s) > 0
                 then num_div (foldl (\<lambda>sum item. num_add sum (avgDays item)) (Fin 0) (filteredData s))
                              (Fin (of_nat (length (filteredData s))))
                 else Fin 0) \<rparr>"

subsection \<open>Ingestion: the \<open>try\<close> block of \<open>loadData\<close>\<close>

text \<open>\<open>result.data || result || []\<close>.\<close>

definition ingest :: "json \<Rightarrow> error + json" where
  "ingest result =
     bind_err (get_prop result ''data'') (\<lambda>d.
       case d of
         Some v \<Rightarrow> Inr (if json_truthy v then v
                         else if json_truthy result then result else JArr [])
       | None \<Rightarrow> Inr (if json_truthy result then result else JArr []))"

text \<open>
  The \<open>try\<close> block from the decoded \<open>result\<close> on: \<open>Inl e\<close> when it throws \<open>e\<close>, which the
  \<open>catch\<close> clause reports as a failure to load.
\<close>

definition loadData :: "env \<Rightarrow> filters \<Rightarrow> json \<Rightarrow> app \<Rightarrow> error + app" where
  "loadData env f result s =
     bind_err (ingest result) (\<lambda>d.
     bind_err (processData env d) (\<lambda>rs.
       applyFilters env f (s\<lparr>data := rs\<rparr>)))"

subsection \<open>Strings of values, and the operator \<open><\<close>\<close>

fun join_with :: "string \<Rightarrow> string list \<Rightarrow> string" where
  "join_with sep [] = []"
| "join_with sep [x] = x"
| "join_with sep (x # y # ys) = x @ sep @ join_with sep (y # ys)"

text \<open>
  \<open>String(v)\<close> of a decoded value: an array joins the strings of its elements with
  commas, \<open>null\<close> elements giving the empty string.
\<close>

fun json_to_string :: "env \<Rightarrow> json \<Rightarrow> string"
  and elements_to_strings :: "env \<Rightarrow> json list \<Rightarrow> string list" where
  "json_to_string env JNull = ''null''"
| "json_to_string env (JBool b) = (if b then ''true'' else ''false'')"
| "json_to_string env (JNum x) = numberToString env x"
| "json_to_string env (JStr s) = s"
| "json_to_string env (JArr xs) = join_with '','' (elements_to_strings env xs)"
| "json_to_string env (JObj kvs) = ''[object Object]''"
| "elements_to_strings env [] = []"
| "elements_to_strings env (x # xs) =
     (if x = JNull then [] else json_to_string env x) # elements_to_strings env xs"

text \<open>The text a template literal \<open>${cell}\<close> inserts for the value of a raw field.\<close>

definition cell_text :: "env \<Rightarrow> json option \<Rightarrow> string" where
  "cell_text env v = (case v of None \<Rightarrow> ''undefined'' | Some j \<Rightarrow> json_to_string env j)"

text \<open>
  \<open>ToPrimitive\<close> with hint number: a \<open>Date\<close> gives its time value, an array or an
  object its string.
\<close>

datatype prim = PUndef | PNull | PBool bool | PNum num | PStr string

fun to_primitive :: "env \<Rightarrow> jsval \<Rightarrow> prim" where
  "to_primitive env VUndef = PUndef"
| "to_primitive env (VNum n) = PNum n"
| "to_primitive env (VDate d) = PNum (date_num d)"
| "to_primitive env (VJson JNull) = PNull"
| "to_primitive env (VJson (JBool b)) = PBool b"
| "to_primitive env (VJson (JNum x)) = PNum (Fin x)"
| "to_primitive env (VJson (JStr s)) = PStr s"
| "to_primitive env (VJson j) = PStr (json_to_string env j)"

text \<open>
  \<open>Number(s)\<close> of a string: white space is trimmed at both ends; the empty string is
  \<open>0\<close>; a prefix \<open>0x\<close>, \<open>0o\<close> or \<open>0b\<close> starts an unsigned literal of radix 16, 8 or 2;
  otherwise the whole text must be a signed decimal literal.
\<close>

fun radix_val :: "nat \<Rightarrow> nat \<Rightarrow> string \<Rightarrow> nat option" where
  "radix_val b acc [] = Some acc"
| "radix_val b acc (c # cs) =
     (case hex_val c of
        None \<Rightarrow> None
      | Some d \<Rightarrow> if d < b then radix_val b (acc * b + d) cs else None)"

definition radix_literal :: "nat \<Rightarrow> string \<Rightarrow> num" where
  "radix_literal b ds =
     (if ds = [] then NaN
      else (case radix_val b 0 ds of None \<Rightarrow> NaN | Some n \<Rightarrow> nearest_double (of_nat n)))"

definition trim :: "string \<Rightarrow> string" where
  "trim s = rev (dropWhile is_space (rev (dropWhile is_space s)))"

definition string_to_number :: "string \<Rightarrow> num" where
  "string_to_number s =
     (let t = trim s in
      if t = [] then Fin 0
      else if starts_with t ''0x'' \<or> starts_with t ''0X'' then radix_literal 16 (drop 2 t)
      else if starts_with t ''0o'' \<or> starts_with t ''0O'' then radix_literal 8 (drop 2 t)
      else if starts_with t ''0b'' \<or> starts_with t ''0B'' then radix_literal 2 (drop 2 t)
      else (case signed_decimal_prefix t of
              Some (v, []) \<Rightarrow> v
            | _ \<Rightarrow> NaN))"

fun to_number :: "prim \<Rightarrow> num" where
  "to_number PUndef = NaN"
| "to_number PNull = Fin 0"
| "to_number (PBool b) = (if b then Fin 1 else Fin 0)"
| "to_number (PNum n) = n"
| "to_number (PStr s) = string_to_number s"

text \<open>Strings compare by code units, the shorter of two first when it is a prefix.\<close>

fun str_lt :: "string \<Rightarrow> string \<Rightarrow> bool" where
  "str_lt [] [] = False"
| "str_lt [] (y # ys) = True"
| "str_lt (x # xs) [] = False"
| "str_lt (x # xs) (y # ys) =
     (if x = y then str_lt xs ys else (of_char x :: nat) < of_char y)"

definition js_lt :: "env \<Rightarrow> jsval \<Rightarrow> jsval \<Rightarrow> bool" where
  "js_lt env a b =
     (case (to_primitive env a, to_primitive env b) of
        (PStr x, PStr y) \<Rightarrow> str_lt x y
      | (p, q) \<Rightarrow> num_lt (to_number p) (to_number q))"

definition js_gt :: "env \<Rightarrow> jsval \<Rightarrow> jsval \<Rightarrow> bool" where
  "js_gt env a b = js_lt env b a"

subsection \<open>Sorting: \<open>sortTable\<close>\<close>

text \<open>
  \<open>Array.prototype.sort\<close> is stable. With a comparator that orders the elements
  consistently, the result is the one stable sorted arrangement, which insertion from
  the right computes. With an inconsistent comparator the language leaves the order
  to the runtime; no statement below about the order of a result relies on such a case.
\<close>

fun insert_by :: "('a \<Rightarrow> 'a \<Rightarrow> int) \<Rightarrow> 'a \<Rightarrow> 'a list \<Rightarrow> 'a list" where
  "insert_by cmp x [] = [x]"
| "insert_by cmp x (y # ys) =
     (if cmp x y \<le> 0 then x # y # ys else y # insert_by cmp x ys)"

definition sort_by :: "('a \<Rightarrow> 'a \<Rightarrow> int) \<Rightarrow> 'a list \<Rightarrow> 'a list" where
  "sort_by cmp xs = foldr (insert_by cmp) xs []"

text \<open>
  \<open>a[column]\<close> on an enriched record: the four derived properties override the
  copied ones. The properties a record inherits from \<open>Object.prototype\<close> are left
  out; no column of the table is named after one.
\<close>

definition get_column :: "erecord \<Rightarrow> string \<Rightarrow> jsval" where
  "get_column a column =
     (if column = ''sla'' then VNum (sla a)
      else if column = ''avgDays'' then VNum (avgDays a)
      else if column = ''poDateObj'' then
        (case poDateObj a of None \<Rightarrow> VJson JNull | Some d \<Rightarrow> VDate d)
      else if column = ''receivedDateObj'' then
        (case receivedDateObj a of None \<Rightarrow> VJson JNull | Some d \<Rightarrow> VDate d)
      else opt_val (map_of (raw a) column))"

definition numeric_columns :: "string list" where
  "numeric_columns = [''qtyPO'', ''qtyReceived'', ''poValue'', ''receivedValue'', ''sla'', ''avgDays'']"

text \<open>The value the comparator compares for one record.\<close>

definition sort_value :: "env \<Rightarrow> string \<Rightarrow> erecord \<Rightarrow> jsval" where
  "sort_value env column a =
     (let aVal = get_column a column;
          aVal = (if column \<in> set numeric_columns
                  then VNum (or_zero (parseFloat aVal)) else aVal);
          aVal = (if column = ''poDate'' \<or> column = ''receivedDate''
                  then (case get_column a (column @ ''Obj'') of
                          VDate d \<Rightarrow> VDate d
                        | _ \<Rightarrow> VDate (ValidDate 0))
                  else aVal)
      in aVal)"

definition compareRecords :: "env \<Rightarrow> string \<Rightarrow> direction \<Rightarrow> erecord \<Rightarrow> erecord \<Rightarrow> int" where
  "compareRecords env column dir a b =
     (let aVal = sort_value env column a;
          bVal = sort_value env column b
      in if js_lt env aVal bVal then (if dir = Asc then - 1 else 1)
         else if js_gt env aVal bVal then (if dir = Asc then 1 else - 1)
         else 0)"

definition sortTable :: "env \<Rightarrow> string \<Rightarrow> app \<Rightarrow> app" where
  "sortTable env column s =
     (let s1 = (if sortColumn s = Some column
                then s\<lparr>sortDirection := (if sortDirection s = Asc then Desc else Asc)\<rparr>
                else s\<lparr>sortColumn := Some column, sortDirection := Asc\<rparr>)
      in s1\<lparr>filteredData :=
               sort_by (compareRecords env column (sortDirection s1)) (filteredData s1)\<rparr>)"

subsection \<open>Export: \<open>exportToCSV\<close>\<close>

definition headers :: "string list" where
  "headers = [''Nomor PO'', ''Item Code'', ''Item Name'', ''Supplier Name'',
              ''Contract/Principal'', ''PO Date'', ''Qty PO'', ''PO Value'',
              ''Received Date'', ''Qty Received'', ''Received Value'', ''SLA (%)'',
              ''Avg Days'']"

text \<open>One element of \<open>rows\<close>, each cell already as the text \<open>${cell}\<close> inserts.\<close>

definition csv_row :: "env \<Rightarrow> erecord \<Rightarrow> string list" where
  "csv_row env item =
     [cell_text env (map_of (raw item) ''nomorPO''),
      cell_text env (map_of (raw item) ''itemCode''),
      cell_text env (map_of (raw item) ''itemName''),
      cell_text env (map_of (raw item) ''supplierName''),
      cell_text env (map_of (raw item) ''contract''),
      cell_text env (map_of (raw item) ''poDate''),
      cell_text env (map_of (raw item) ''qtyPO''),
      cell_text env (map_of (raw item) ''poValue''),
      cell_text env (map_of (raw item) ''receivedDate''),
      cell_text env (map_of (raw item) ''qtyReceived''),
      cell_text env (map_of (raw item) ''receivedValue''),
      toFixed2 env (sla item),
      num_to_string env (avgDays item)]"

definition quote_cell :: "string \<Rightarrow> string" where
  "quote_cell cell = [CHR 0x22] @ cell @ [CHR 0x22]"

text \<open>The text \<open>csvContent\<close> built from the view: the header line, then the rows.\<close>

definition csvContent :: "env \<Rightarrow> erecord list \<Rightarrow> string" where
  "csvContent env view =
     (let rows = map (csv_row env) view
      in join_with [CHR 0x0A]
           (join_with '','' headers #
            map (\<lambda>row. join_with '','' (map quote_cell row)) rows))"

text \<open>
  The text handed to the download, or \<open>None\<close> when the view is empty and the function
  returns after its alert.
\<close>

definition exportToCSV :: "env \<Rightarrow> app \<Rightarrow> string option" where
  "exportToCSV env s =
     (if length (filteredData s) = 0 then None
      else Some (csvContent env (filteredData s)))"

subsection \<open>A runtime for the examples\<close>

text \<open>
  Local time is UTC+7 with no daylight saving; \<open>Date.parse\<close> reads the date-only ISO
  form \<open>YYYY-MM-DD\<close> as UTC midnight and rejects other text; integers are printed in
  decimal; \<open>toLowerCase\<close> maps the letters A to Z. The examples use it on inputs where
  every runtime with that time zone agrees with it.
\<close>

definition iso_date :: "string \<Rightarrow> jsdate" where
  "iso_date s =
     (case split_on (CHR ''-'') s of
        [y, m, d] \<Rightarrow>
          if length y = 4 \<and> length m = 2 \<and> length d = 2 \<and> list_all is_digit (y @ m @ d)
          then timeClip (makeDay (int (digits_val 0 y)) (int (digits_val 0 m) - 1)
                                 (int (digits_val 0 d)) * msPerDay)
          else InvalidDate
      | _ \<Rightarrow> InvalidDate)"

definition integer_text :: "real \<Rightarrow> string" where
  "integer_text r = (if r < 0 then ''-'' else []) @ digits_of (nat \<bar>\<lfloor>r\<rfloor>\<bar>)"

definition ascii_lower :: "char \<Rightarrow> char" where
  "ascii_lower c =
     (case map_of (zip ''ABCDEFGHIJKLMNOPQRSTUVWXYZ'' ''abcdefghijklmnopqrstuvwxyz'') c of
        None \<Rightarrow> c
      | Some l \<Rightarrow> l)"

definition jakarta :: env where
  "jakarta = \<lparr> localTZA = (\<lambda>t. 7 * 3600000),
               dateParse = iso_date,
               numberToString = integer_text,
               toLowerCase = map ascii_lower \<rparr>"

definition greenwich :: env where
  "greenwich = jakarta\<lparr> localTZA := (\<lambda>t. 0) \<rparr>"

subsection \<open>Sample records\<close>

definition item_acme :: json where
  "item_acme = JObj [(''nomorPO'', JStr ''PO1''), (''itemCode'', JStr ''X1''),
     (''itemName'', JStr ''Bolt''), (''supplierName'', JStr ''Acme''),
     (''contract'', JStr ''C1''), (''poDate'', JStr ''01/01/2024''), (''qtyPO'', JStr ''10''),
     (''poValue'', JStr ''100''), (''receivedDate'', JStr ''05/01/2024''),
     (''qtyReceived'', JStr ''8''), (''receivedValue'', JStr ''80'')]"

definition item_old :: json where
  "item_old = JObj [(''nomorPO'', JStr ''PO2''), (''itemCode'', JStr ''Y2''),
     (''itemName'', JStr ''Nut''), (''supplierName'', JStr ''Birch''),
     (''contract'', JStr ''C2''), (''poDate'', JStr ''01/01/1960''), (''qtyPO'', JStr ''5''),
     (''poValue'', JStr ''50''), (''receivedDate'', JStr ''11/01/1960''),
     (''qtyReceived'', JStr ''8''), (''receivedValue'', JStr ''80'')]"

definition item_undated :: json where
  "item_undated = JObj [(''nomorPO'', JStr ''PO3''), (''itemCode'', JStr ''Z3''),
     (''itemName'', JStr ''Washer''), (''supplierName'', JStr ''Cedar''),
     (''contract'', JStr ''C3''), (''qtyPO'', JStr ''20''),
     (''poValue'', JStr ''200''), (''qtyReceived'', JStr ''8''), (''receivedValue'', JStr ''80'')]"

definition sample_payload :: json where
  "sample_payload = JArr [item_acme, item_old, item_undated]"

text \<open>What \<open>processData\<close> makes of the three items in the runtime \<open>jakarta\<close>.\<close>

definition rec_acme :: erecord where
  "rec_acme = \<lparr> raw = spread item_acme, sla = Fin 80, avgDays = Fin 4,
     poDateObj = Some (ValidDate 1704042000000),
     receivedDateObj = Some (ValidDate 1704387600000) \<rparr>"

definition rec_old :: erecord where
  "rec_old = \<lparr> raw = spread item_old, sla = Fin 160, avgDays = Fin 10,
     poDateObj = Some (ValidDate (- 315644400000)),
     receivedDateObj = Some (ValidDate (- 314780400000)) \<rparr>"

definition rec_undated :: erecord where
  "rec_undated = \<lparr> raw = spread item_undated, sla = Fin 40, avgDays = Fin 0,
     poDateObj = None, receivedDateObj = None \<rparr>"

text \<open>The first item in the runtime \<open>greenwich\<close>, where local midnight is UTC midnight.\<close>

definition rec_acme_utc :: erecord where
  "rec_acme_utc = rec_acme\<lparr> poDateObj := Some (ValidDate 1704067200000),
     receivedDateObj := Some (ValidDate 1704412800000) \<rparr>"

subsection \<open>Notions used in the statements\<close>

text \<open>The three text checks of the filter predicate, which follow its four date checks.\<close>

definition text_checks :: "env \<Rightarrow> string \<Rightarrow> string \<Rightarrow> string \<Rightarrow> erecord \<Rightarrow> error + bool" where
  "text_checks env supplier contract itemCode item =
     bind_err (text_rejects env supplier item ''supplierName'') (\<lambda>r1.
       if r1 then Inr False
       else bind_err (text_rejects env contract item ''contract'') (\<lambda>r2.
         if r2 then Inr False
         else bind_err (text_rejects env itemCode item ''itemCode'') (\<lambda>r3.
           Inr (\<not> r3))))"

text \<open>
  The arithmetic mean of a list of numbers: their sum, added up from 0 in the order of
  the list, divided by their count. Whether adding up finite numbers from \<open>acc\<close> rounds
  nowhere: every running sum is a double.
\<close>

definition mean :: "num list \<Rightarrow> num" where
  "mean xs = num_div (foldl num_add (Fin 0) xs) (Fin (of_nat (length xs)))"

fun exact_sums :: "real \<Rightarrow> real list \<Rightarrow> bool" where
  "exact_sums acc [] = True"
| "exact_sums acc (x # xs) =
     (nearest_double (acc + x) = Fin (acc + x) \<and> exact_sums (acc + x) xs)"

text \<open>The value of \<open>item.nomorPO\<close>, and whether it is an array or an object.\<close>

definition nomorPO :: "erecord \<Rightarrow> json option" where
  "nomorPO item = map_of (raw item) ''nomorPO''"

fun is_reference :: "json option \<Rightarrow> bool" where
  "is_reference (Some (JArr xs)) = True"
| "is_reference (Some (JObj kvs)) = True"
| "is_reference _ = False"

text \<open>The header line and the line of one record in the exported text.\<close>

definition header_line :: string where
  "header_line = join_with '','' headers"

definition row_text :: "env \<Rightarrow> erecord \<Rightarrow> string" where
  "row_text env item = join_with '','' (map quote_cell (csv_row env item))"

text \<open>
  Rounding to two decimals, a tie going away from zero; and a number rounded to two
  decimals: the double nearest to the rounded value when the magnitude is below
  \<open>10^21\<close>, and otherwise what reads back from the runtime's own text of the number.
\<close>

definition round2 :: "real \<Rightarrow> real" where
  "round2 x = (if x < 0 then - 1 else 1) * of_int \<lfloor>\<bar>x\<bar> * 100 + 1 / 2\<rfloor> / 100"

definition rounded :: "env \<Rightarrow> num \<Rightarrow> num" where
  "rounded env x =
     (case x of
        Fin q \<Rightarrow> if \<bar>q\<bar> < 10 ^ 21 then nearest_double (round2 q)
                 else parseFloat_str (numberToString env q)
      | _ \<Rightarrow> x)"

text \<open>
  The number a raw field of an object coerces to: the number that the value of the field
  reads as, and 0 when the field is missing or its value reads as no number.
\<close>

definition coerced :: "(string \<times> json) list \<Rightarrow> string \<Rightarrow> num" where
  "coerced kvs name =
     (case map_of kvs name of
        None \<Rightarrow> Fin 0
      | Some j \<Rightarrow> (case parseFloat_json j of NaN \<Rightarrow> Fin 0 | x \<Rightarrow> x))"

text \<open>
  The \<open>Date\<close> object a date column sorts by, and the time value it compares with:
  that of the date when it is valid, and 0, the time value of \<open>new Date(0)\<close>, when the
  object is \<open>null\<close>.
\<close>

definition date_of :: "string \<Rightarrow> erecord \<Rightarrow> jsdate option" where
  "date_of column r = (if column = ''poDate'' then poDateObj r else receivedDateObj r)"

definition date_key :: "string \<Rightarrow> erecord \<Rightarrow> int" where
  "date_key column r = (case date_of column r of Some (ValidDate t) \<Rightarrow> t | _ \<Rightarrow> 0)"

text \<open>
  The states of the sorting examples: the sample loaded, and the sample filtered again
  after a sort by \<open>sla\<close>.
\<close>

definition loaded :: app where
  "loaded = \<lparr> data = [rec_acme, rec_old, rec_undated],
              filteredData = [rec_acme, rec_old, rec_undated],
              sortColumn = None, sortDirection = Asc \<rparr>"

definition refiltered :: app where
  "refiltered = \<lparr> data = [rec_acme, rec_old, rec_undated],
                  filteredData = [rec_acme, rec_old, rec_undated],
                  sortColumn = Some ''sla'', sortDirection = Asc \<rparr>"

text \<open>
  The key of a record in a numeric column: the number that the value of the column reads
  as, and 0 when it reads as no number.
\<close>

definition num_key :: "string \<Rightarrow> erecord \<Rightarrow> num" where
  "num_key column r = (case parseFloat (get_column r column) of NaN \<Rightarrow> Fin 0 | x \<Rightarrow> x)"

section \<open>Properties\<close>

subsection \<open>Evaluation and basic facts\<close>

lemmas double_defs = nearest_double_def round_magnitude_def exponent_of_def
  round_half_even_def pow2_def bit_length.simps

lemmas parse_defs = parseInt_def parseInt_unsigned_def is_space_def is_digit_def digit_val_def
  parseFloat_str_def signed_decimal_prefix_def decimal_prefix_def exponent_part_def scale10_def
  double_defs

lemmas date_defs = newDate3_def to_integer_def makeDay_def dayFromYear_def monthStart_def
  inLeapYear_def msPerDay_def timeClip_def num_sub_def

lemmas enrich_defs = processItem_def bind_err_def parseDate_def opt_val_def or_zero_def
  num_gt_def toFixed2_def digits_of.simps digit_char_def Let_def

lemmas jakarta_defs = jakarta_def iso_date_def integer_text_def ascii_lower_def newDateStr_def
  digits_of.simps

subsection \<open>Rounding\<close>

lemma round_magnitude_zero [simp]: "round_magnitude 0 = Fin 0"
  by (simp add: round_magnitude_def pow2_def)

lemma nearest_double_zero [simp]: "nearest_double 0 = Fin 0"
  by (simp add: nearest_double_def)

lemma round_magnitude_not_NaN [simp]: "round_magnitude a \<noteq> NaN"
  by (simp add: round_magnitude_def Let_def)

lemma num_neg_eq_NaN [simp]: "(num_neg x = NaN) = (x = NaN)"
  by (cases x) simp_all

lemma num_neg_num_neg [simp]: "num_neg (num_neg x) = x"
  by (cases x) simp_all

lemma nearest_double_not_NaN [simp]: "nearest_double x \<noteq> NaN"
  by (simp add: nearest_double_def)

text \<open>Rounding commutes with negation, and gives a number.\<close>

lemma nearest_double_minus: "nearest_double (- x) = num_neg (nearest_double x)"
  by (cases "x = 0") (auto simp add: nearest_double_def)

text \<open>Powers of 2 and the length of an integer in bits.\<close>

lemma pow2_pos [simp]: "0 < pow2 k"
  by (simp add: pow2_def)

lemma pow2_nonzero [simp]: "pow2 k \<noteq> 0"
  by (simp add: pow2_def)

lemma pow2_powr: "pow2 k = (2::real) powr (of_int k)"
proof (cases "0 \<le> k")
  case True
  then show ?thesis
    by (simp add: pow2_def powr_realpow [symmetric])
next
  case False
  then have "(2::real) powr (of_int k) = 1 / 2 powr (of_int (- k))"
    by (simp add: powr_minus divide_inverse)
  also have "\<dots> = 1 / 2 ^ nat (- k)"
    using False by (simp add: powr_realpow [symmetric])
  finally show ?thesis
    using False by (simp add: pow2_def)
qed

lemma pow2_add: "pow2 (j + k) = pow2 j * pow2 k"
  by (simp add: pow2_powr powr_add)

lemma pow2_mono: "j \<le> k \<Longrightarrow> pow2 j \<le> pow2 k"
  by (simp add: pow2_powr)

lemma bit_length_nonneg: "0 \<le> bit_length n"
  by (induction n rule: bit_length.induct) (subst bit_length.simps, simp)

lemma bit_length_pos: "0 < n \<Longrightarrow> 0 < bit_length n"
  using bit_length_nonneg [of "n div 2"] by (subst bit_length.simps) simp

lemma bit_length_bounds:
  "0 < n \<Longrightarrow> 2 ^ nat (bit_length n - 1) \<le> n \<and> n < 2 ^ nat (bit_length n)"
proof (induction n rule: bit_length.induct)
  case (1 n)
  show ?case
  proof (cases "n = 1")
    case True
    then show ?thesis
      by (simp add: bit_length.simps [of 1] bit_length.simps [of 0])
  next
    case False
    with "1.prems" have half: "0 < n div 2" by simp
    with "1.IH" "1.prems" have ih: "2 ^ nat (bit_length (n div 2) - 1) \<le> n div 2"
        "n div 2 < 2 ^ nat (bit_length (n div 2))"
      by simp_all
    note pos = bit_length_pos [OF half]
    have bl: "bit_length n = 1 + bit_length (n div 2)"
      using "1.prems" by (subst bit_length.simps) simp
    from pos have s: "nat (bit_length n - 1) = Suc (nat (bit_length (n div 2) - 1))"
        "nat (bit_length n) = Suc (nat (bit_length (n div 2)))"
      by (simp_all add: bl nat_add_distrib)
    from ih show ?thesis
      unfolding s by simp presburger
  qed
qed

text \<open>The exponent brackets a positive number between two powers of 2.\<close>

lemma exponent_of_bounds:
  assumes "0 < x"
  shows "pow2 (exponent_of x) \<le> x \<and> x < pow2 (exponent_of x + 1)"
proof (cases "1 \<le> x")
  case True
  define n where "n = \<lfloor>x\<rfloor>"
  from True have n: "0 < n" by (simp add: n_def)
  note b = bit_length_bounds [OF n]
  note p = bit_length_pos [OF n]
  have e: "exponent_of x = bit_length n - 1"
    using True by (simp add: exponent_of_def n_def)
  from b have "real_of_int (2 ^ nat (bit_length n - 1)) \<le> of_int n"
    by (simp only: of_int_le_iff)
  also have "\<dots> \<le> x" by (simp add: n_def)
  finally have lo: "pow2 (exponent_of x) \<le> x"
    using p by (simp add: e pow2_def)
  from b have "n + 1 \<le> 2 ^ nat (bit_length n)" by simp
  then have "real_of_int (n + 1) \<le> of_int (2 ^ nat (bit_length n))"
    by (simp only: of_int_le_iff)
  moreover have "x < of_int (n + 1)" by (simp add: n_def)
  ultimately have "x < pow2 (exponent_of x + 1)"
    using p by (simp add: e pow2_def)
  with lo show ?thesis by simp
next
  case False
  define n where "n = \<lceil>1 / x\<rceil> - 1"
  from False assms have "1 < 1 / x" by simp
  then have n: "0 < n" by (simp add: n_def less_ceiling_iff)
  note b = bit_length_bounds [OF n]
  note p = bit_length_pos [OF n]
  have e: "exponent_of x = - bit_length n"
    using False by (simp add: exponent_of_def n_def)
  have up: "1 / x \<le> of_int (n + 1)" by (simp add: n_def)
  have "of_int n < 1 / x" unfolding n_def by linarith
  from b have "real_of_int (n + 1) \<le> of_int (2 ^ nat (bit_length n))"
    by (simp only: of_int_le_iff) simp
  with up have "1 / x \<le> 2 ^ nat (bit_length n)" by simp
  with assms have lo: "1 / 2 ^ nat (bit_length n) \<le> x"
    by (simp add: field_simps)
  from b have "real_of_int (2 ^ nat (bit_length n - 1)) \<le> of_int n"
    by (simp only: of_int_le_iff)
  then have "(2::real) ^ nat (bit_length n - 1) \<le> of_int n" by simp
  with \<open>of_int n < 1 / x\<close> have "2 ^ nat (bit_length n - 1) < 1 / x" by linarith
  with assms have hi: "x < 1 / 2 ^ nat (bit_length n - 1)"
    by (simp add: field_simps)
  have "pow2 (exponent_of x + 1) = 1 / 2 ^ nat (bit_length n - 1)"
    using p by (cases "bit_length n = 1") (simp_all add: e pow2_def)
  with lo hi p show ?thesis
    by (simp add: e pow2_def)
qed

lemma round_half_even_near: "\<bar>of_int (round_half_even q) - q\<bar> \<le> 1 / 2"
  unfolding round_half_even_def Let_def by (simp; linarith)

lemma round_half_even_int [simp]: "round_half_even (of_int n) = n"
  by (simp add: round_half_even_def)

text \<open>The result is within half a unit in the last place.\<close>

lemma round_magnitude_near:
  assumes "round_magnitude a = Fin y"
  shows "\<bar>y - a\<bar> \<le> pow2 (max (exponent_of a) (- 1022) - 53) \<or> (a \<le> pow2 (- 1075) \<and> y = 0)"
proof (cases "a \<le> pow2 (- 1075)")
  case True
  with assms show ?thesis by (simp add: round_magnitude_def)
next
  case False
  define e where "e = max (exponent_of a) (- 1022)"
  define m where "m = round_half_even (a / pow2 (e - 52))"
  from assms False have y: "y = of_int m * pow2 (e - 52)"
    by (simp add: round_magnitude_def Let_def e_def m_def split: if_splits)
  have near: "\<bar>of_int m - a / pow2 (e - 52)\<bar> \<le> 1 / 2"
    unfolding m_def by (rule round_half_even_near)
  have "(of_int m - a / pow2 (e - 52)) * pow2 (e - 52) = y - a"
    by (simp add: y left_diff_distrib)
  then have "\<bar>y - a\<bar> = \<bar>(of_int m - a / pow2 (e - 52)) * pow2 (e - 52)\<bar>"
    by (simp only:)
  also have "\<dots> = \<bar>of_int m - a / pow2 (e - 52)\<bar> * pow2 (e - 52)"
    by (simp add: abs_mult abs_of_pos [OF pow2_pos])
  also have "\<dots> \<le> 1 / 2 * pow2 (e - 52)"
    using near by (rule mult_right_mono) (rule less_imp_le [OF pow2_pos])
  also have "1 / 2 * pow2 (e - 52) = pow2 (e - 53)"
    using pow2_add [of "- 1" "e - 52"] by (simp add: pow2_def)
  finally show ?thesis
    by (simp add: e_def)
qed

text \<open>Integers below \<open>2^53\<close> are doubles.\<close>

lemma round_magnitude_int:
  assumes "0 < k" and "k < 2 ^ 53"
  shows "round_magnitude (of_int k) = Fin (of_int k)"
proof -
  define e where "e = exponent_of (of_int k)"
  from assms(1) have pos: "0 < real_of_int k" by simp
  have e: "e = bit_length k - 1"
    using assms(1) by (simp add: e_def exponent_of_def)
  note b = bit_length_bounds [OF assms(1)]
  note p = bit_length_pos [OF assms(1)]
  from b assms(2) have "(2::int) ^ nat (bit_length k - 1) < 2 ^ 53" by simp
  then have "nat (bit_length k - 1) < 53"
    by (simp only: power_strict_increasing_iff) 
  with p have e52: "0 \<le> e" "e \<le> 52"
    by (simp_all add: e)
  define j where "j = nat (52 - e)"
  have ulp: "pow2 (e - 52) = 1 / 2 ^ j"
    using e52 by (cases "e = 52") (simp_all add: pow2_def j_def)
  have q: "of_int k / pow2 (e - 52) = real_of_int (k * 2 ^ j)"
    by (simp add: ulp)
  have small: "\<not> real_of_int k \<le> pow2 (- 1075)"
  proof -
    have "pow2 (- 1075) \<le> pow2 0" by (rule pow2_mono) simp
    also have "\<dots> = 1" by (simp add: pow2_def)
    finally have "pow2 (- 1075) < 1 + 0" using pow2_pos [of "- 1075"]
      by (simp add: pow2_def)
    moreover from assms(1) have "1 \<le> real_of_int k" by simp
    ultimately show ?thesis by simp
  qed
  have big: "\<not> pow2 1024 \<le> real_of_int k"
  proof -
    from assms(2) have "real_of_int k < of_int (2 ^ 53)"
      by (simp only: of_int_less_iff)
    moreover have "pow2 53 \<le> pow2 1024" by (rule pow2_mono) simp
    ultimately show ?thesis by (simp add: pow2_def)
  qed
  have m: "max e (- 1022) = e" using e52 by simp
  from e52 have ne: "e \<noteq> 1023" by simp
  show ?thesis
    using small big ne
    by (simp add: round_magnitude_def Let_def e_def [symmetric] m q del: of_int_mult of_int_power)
       (simp add: ulp)
qed

lemma nearest_double_int:
  assumes "\<bar>k\<bar> < 2 ^ 53"
  shows "nearest_double (of_int k) = Fin (of_int k)"
proof -
  consider "k < 0" | "k = 0" | "0 < k" by linarith
  then show ?thesis
  proof cases
    case 1
    with assms have "round_magnitude (of_int (- k)) = Fin (of_int (- k))"
      by (intro round_magnitude_int) simp_all
    with 1 show ?thesis by (simp add: nearest_double_def)
  next
    case 2
    then show ?thesis by simp
  next
    case 3
    with assms have "round_magnitude (of_int k) = Fin (of_int k)"
      by (intro round_magnitude_int) simp_all
    with 3 show ?thesis by (simp add: nearest_double_def)
  qed
qed

subsection \<open>Arithmetic with \<open>NaN\<close>, and the two ends of the pipeline\<close>

lemma num_add_NaN [simp]: "num_add x NaN = NaN"
  by (cases x) simp_all

lemma num_sub_NaN [simp]: "num_sub x NaN = NaN"
  by (simp add: num_sub_def)

lemma processData_not_array:
  "\<forall>xs. d \<noteq> JArr xs \<Longrightarrow> \<exists>e. processData env d = Inl e"
  by (cases d) (simp_all add: processData_def)

lemma applyFilters_empty:
  "data s = [] \<Longrightarrow> applyFilters env f s = Inr (s\<lparr>filteredData := []\<rparr>)"
  by (simp add: applyFilters_def bind_err_def Let_def)

subsection \<open>Ingestion\<close>

text \<open>
  C1, as stated, fails: a payload that is the number 5 is neither an array nor an object
  with a \<open>data\<close> array, yet the \<open>try\<close> block does not produce an empty record set; it
  assigns 5 to \<open>this.data\<close> and throws at \<open>this.data.map\<close>.
\<close>

theorem loadData_number_counterexample:
  "loadData jakarta noFilters (JNum 5) initial = Inl (NotAFunction ''map'')"
  by (simp add: loadData_def ingest_def bind_err_def processData_def)

text \<open>
  The fallback to the empty array is what \<open>|| []\<close> is there for, and \<open>null\<close> does not
  reach it: reading \<open>.data\<close> of \<open>null\<close> throws first.
\<close>

lemma ingest_null: "ingest JNull = Inl (CannotReadProperty ''data'')"
  by (simp add: ingest_def bind_err_def)

text \<open>
  C1, amended: when the decoded payload is \<open>false\<close>, \<open>0\<close> or the empty string, the
  ingestion produces the empty record set without raising, and filtering and the
  statistics complete on it (empty view, all statistics zero).
\<close>

theorem loadData_unexpected_payload:
  assumes "result = JBool False \<or> result = JNum 0 \<or> result = JStr []"
  shows "ingest result = Inr (JArr []) \<and>
         loadData env f result s = Inr (s\<lparr>data := [], filteredData := []\<rparr>) \<and>
         updateStatistics (s\<lparr>data := [], filteredData := []\<rparr>) =
           \<lparr> totalPO = 0, totalItems = 0, avgSLA = Fin 0, avgDaysAll = Fin 0 \<rparr>"
proof -
  from assms have i: "ingest result = Inr (JArr [])"
    by (auto simp add: ingest_def bind_err_def)
  then have "loadData env f result s = Inr (s\<lparr>data := [], filteredData := []\<rparr>)"
    by (simp add: loadData_def bind_err_def processData_def applyFilters_empty)
  moreover have "updateStatistics (s\<lparr>data := [], filteredData := []\<rparr>) =
      \<lparr> totalPO = 0, totalItems = 0, avgSLA = Fin 0, avgDaysAll = Fin 0 \<rparr>"
    by (simp add: updateStatistics_def po_keys_def)
  ultimately show ?thesis
    using i by simp
qed

theorem loadData_unexpected_payload_witness:
  "loadData jakarta noFilters (JNum 0) initial = Inr (initial\<lparr>data := [], filteredData := []\<rparr>) \<and>
   loadData jakarta noFilters (JStr []) initial = Inr (initial\<lparr>data := [], filteredData := []\<rparr>) \<and>
   loadData jakarta noFilters (JBool False) initial =
     Inr (initial\<lparr>data := [], filteredData := []\<rparr>) \<and>
   updateStatistics (initial\<lparr>data := [], filteredData := []\<rparr>) =
     \<lparr> totalPO = 0, totalItems = 0, avgSLA = Fin 0, avgDaysAll = Fin 0 \<rparr>"
  using loadData_unexpected_payload [of "JNum 0" jakarta noFilters initial]
    loadData_unexpected_payload [of "JStr []" jakarta noFilters initial]
    loadData_unexpected_payload [of "JBool False" jakarta noFilters initial]
  by simp

subsection \<open>Date parsing and enrichment\<close>

text \<open>On a string \<open>parseDate\<close> never throws.\<close>

lemma parseDate_string_total: "\<exists>d. parseDate env (Some (JStr s)) = Inr d"
  by (simp add: parseDate_def Let_def split: list.splits)

text \<open>Only the branch for three parts can return an invalid date.\<close>

lemma parseDate_invalid_three_parts:
  assumes "parseDate env v = Inr (Some InvalidDate)"
  shows "\<exists>s. v = Some (JStr s) \<and> length (split_on (CHR ''/'') s) = 3"
proof -
  from assms obtain j where v: "v = Some j" and "json_truthy j"
    by (cases v) (auto simp add: parseDate_def split: if_splits)
  with assms obtain s where j: "j = JStr s"
    by (cases j) (simp_all add: parseDate_def)
  from assms v j have "length (split_on (CHR ''/'') s) = 3"
    by (auto simp add: parseDate_def Let_def split: list.splits if_splits)
  with v j show ?thesis by simp
qed

text \<open>
  \<open>avgDays\<close> in terms of the two date objects of the enriched record: the ceiling of
  the difference of the time values, divided by the milliseconds of a day, when both are
  valid; 0 when one is \<open>null\<close>; and \<open>NaN\<close> when both are objects and one is invalid.
\<close>

lemma processItem_avgDays:
  assumes "processItem env item = Inr r"
  shows "avgDays r =
           (case (poDateObj r, receivedDateObj r) of
              (Some (ValidDate p), Some (ValidDate q)) \<Rightarrow>
                num_ceil (num_div (num_sub (Fin (of_int q)) (Fin (of_int p))) (Fin 86400000))
            | (Some InvalidDate, Some q) \<Rightarrow> NaN
            | (Some (ValidDate p), Some InvalidDate) \<Rightarrow> NaN
            | _ \<Rightarrow> Fin 0)"
proof -
  from assms have "avgDays r =
      (case (poDateObj r, receivedDateObj r) of
         (Some p, Some q) \<Rightarrow>
           num_ceil (num_div (num_sub (date_num q) (date_num p)) (Fin (1000 * 60 * 60 * 24)))
       | _ \<Rightarrow> Fin 0)"
    by (auto simp add: processItem_def bind_err_def Let_def split: sum.splits option.splits)
  then show ?thesis
    by (auto simp add: num_sub_def split: option.splits jsdate.splits)
qed

text \<open>
  C2 at the input \<open>a/b/c\<close>: the text has three parts, so \<open>parseDate\<close> returns the
  \<open>Date\<close> built from three \<open>NaN\<close>s, which is an invalid date and not \<open>null\<close>. The claim
  says that every invalid input yields \<open>null\<close>; the fallback branch of the same
  function does check \<open>isNaN(date.getTime())\<close>.
\<close>

theorem parseDate_non_numeric_parts:
  "parseDate env (Some (JStr ''a/b/c'')) = Inr (Some InvalidDate)"
  by (simp add: parseDate_def parseInt_def parseInt_unsigned_def newDate3_def num_sub_def
        is_space_def is_digit_def)

text \<open>
  C3 at a record whose \<open>poDate\<close> is \<open>a/b/c\<close>: the invalid date is truthy, so the
  difference is computed and \<open>avgDays\<close> is \<open>NaN\<close>, where the claim says 0 and never
  \<open>NaN\<close>.
\<close>

theorem processItem_invalid_date:
  "map_sum id (\<lambda>r. (poDateObj r, avgDays r))
     (processItem env
        (JObj [(''poDate'', JStr ''a/b/c''), (''receivedDate'', JStr ''05/01/2024'')]))
   = Inr (Some InvalidDate, NaN)"
  by (simp add: enrich_defs parseInt_def parseInt_unsigned_def newDate3_def
        is_space_def is_digit_def)

subsection \<open>The sample records\<close>

lemma processItem_acme: "processItem jakarta item_acme = Inr rec_acme"
  by (simp add: item_acme_def rec_acme_def enrich_defs parse_defs date_defs jakarta_defs)

lemma processItem_old: "processItem jakarta item_old = Inr rec_old"
  by (simp add: item_old_def rec_old_def enrich_defs parse_defs date_defs jakarta_defs)

lemma processItem_undated: "processItem jakarta item_undated = Inr rec_undated"
  by (simp add: item_undated_def rec_undated_def enrich_defs parse_defs date_defs jakarta_defs)

lemma processData_sample:
  "processData jakarta sample_payload = Inr [rec_acme, rec_old, rec_undated]"
  by (simp add: processData_def sample_payload_def processItem_acme processItem_old
        processItem_undated bind_err_def)

lemma processItem_acme_utc: "processItem greenwich item_acme = Inr rec_acme_utc"
  by (simp add: item_acme_def rec_acme_def rec_acme_utc_def greenwich_def enrich_defs parse_defs
        date_defs jakarta_defs)

lemmas filter_defs = filterItem_def text_rejects_def bind_err_def noFilters_def date_lt_def
  date_gt_def num_gt_def

lemmas sample_defs = rec_acme_def rec_old_def rec_undated_def rec_acme_utc_def item_acme_def
  item_old_def item_undated_def

lemma iso_2024_01_01: "newDateStr jakarta ''2024-01-01'' = ValidDate 1704067200000"
  by (simp add: jakarta_defs parse_defs date_defs)

lemma iso_2024_12_31: "newDateStr jakarta ''2024-12-31'' = ValidDate 1735603200000"
  by (simp add: jakarta_defs parse_defs date_defs)

lemma iso_greenwich: "newDateStr greenwich s = newDateStr jakarta s"
  by (simp add: greenwich_def newDateStr_def jakarta_def)

subsection \<open>Filtering\<close>

lemma date_before_iff:
  "date_before obj (ValidDate c) = (\<exists>t. obj = Some (ValidDate t) \<and> t < c)"
proof (cases obj)
  case None
  then show ?thesis by simp
next
  case (Some d)
  then show ?thesis by (cases d) (simp_all add: date_lt_def)
qed

lemma date_after_iff:
  "date_after obj (ValidDate c) = (\<exists>t. obj = Some (ValidDate t) \<and> c < t)"
proof (cases obj)
  case None
  then show ?thesis by simp
next
  case (Some d)
  then show ?thesis by (cases d) (simp_all add: date_gt_def num_gt_def)
qed

lemma num_lt_NaN_right [simp]: "num_lt x NaN = False"
  by (cases x) simp_all

lemma date_before_invalid [simp]: "date_before obj InvalidDate = False"
  by (cases obj) (simp_all add: date_lt_def)

lemma date_after_invalid [simp]: "date_after obj InvalidDate = False"
proof (cases obj)
  case None
  then show ?thesis by simp
next
  case (Some d)
  then show ?thesis by (cases d) (simp_all add: date_gt_def num_gt_def)
qed

lemma filterItem_alt:
  "filterItem env f su co ic item =
     (if (poDateFrom f \<noteq> [] \<and> date_before (poDateObj item) (newDateStr env (poDateFrom f))) \<or>
         (poDateTo f \<noteq> [] \<and> date_after (poDateObj item) (newDateStr env (poDateTo f))) \<or>
         (rcvDateFrom f \<noteq> [] \<and> date_before (receivedDateObj item) (newDateStr env (rcvDateFrom f))) \<or>
         (rcvDateTo f \<noteq> [] \<and> date_after (receivedDateObj item) (newDateStr env (rcvDateTo f)))
      then Inr False else text_checks env su co ic item)"
  unfolding filterItem_def text_checks_def by simp

lemma po_axis_only_rejects_outside:
  assumes "filterItem env f su co ic item = Inr False"
    and "filterItem env (f\<lparr>poDateFrom := [], poDateTo := []\<rparr>) su co ic item \<noteq> Inr False"
  shows "\<exists>t c. poDateObj item = Some (ValidDate t) \<and>
         (poDateFrom f \<noteq> [] \<and> newDateStr env (poDateFrom f) = ValidDate c \<and> t < c \<or>
          poDateTo f \<noteq> [] \<and> newDateStr env (poDateTo f) = ValidDate c \<and> c < t)"
proof -
  from assms have "poDateFrom f \<noteq> [] \<and> date_before (poDateObj item) (newDateStr env (poDateFrom f)) \<or>
      poDateTo f \<noteq> [] \<and> date_after (poDateObj item) (newDateStr env (poDateTo f))"
    by (auto simp add: filterItem_alt split: if_splits)
  then show ?thesis
  proof
    assume h: "poDateFrom f \<noteq> [] \<and> date_before (poDateObj item) (newDateStr env (poDateFrom f))"
    then show ?thesis
      by (cases "newDateStr env (poDateFrom f)") (auto simp add: date_before_iff)
  next
    assume h: "poDateTo f \<noteq> [] \<and> date_after (poDateObj item) (newDateStr env (poDateTo f))"
    then show ?thesis
      by (cases "newDateStr env (poDateTo f)") (auto simp add: date_after_iff)
  qed
qed

lemma rcv_axis_only_rejects_outside:
  assumes "filterItem env f su co ic item = Inr False"
    and "filterItem env (f\<lparr>rcvDateFrom := [], rcvDateTo := []\<rparr>) su co ic item \<noteq> Inr False"
  shows "\<exists>t c. receivedDateObj item = Some (ValidDate t) \<and>
         (rcvDateFrom f \<noteq> [] \<and> newDateStr env (rcvDateFrom f) = ValidDate c \<and> t < c \<or>
          rcvDateTo f \<noteq> [] \<and> newDateStr env (rcvDateTo f) = ValidDate c \<and> c < t)"
proof -
  from assms have "rcvDateFrom f \<noteq> [] \<and> date_before (receivedDateObj item) (newDateStr env (rcvDateFrom f)) \<or>
      rcvDateTo f \<noteq> [] \<and> date_after (receivedDateObj item) (newDateStr env (rcvDateTo f))"
    by (auto simp add: filterItem_alt split: if_splits)
  then show ?thesis
  proof
    assume h: "rcvDateFrom f \<noteq> [] \<and> date_before (receivedDateObj item) (newDateStr env (rcvDateFrom f))"
    then show ?thesis
      by (cases "newDateStr env (rcvDateFrom f)") (auto simp add: date_before_iff)
  next
    assume h: "rcvDateTo f \<noteq> [] \<and> date_after (receivedDateObj item) (newDateStr env (rcvDateTo f))"
    then show ?thesis
      by (cases "newDateStr env (rcvDateTo f)") (auto simp add: date_after_iff)
  qed
qed

text \<open>
  C5: a record whose \<open>poDateObj\<close> (or \<open>receivedDateObj\<close>) is \<open>null\<close> gets the same
  verdict from the filter whatever the two bounds of that axis are, the verdict it gets
  with both bounds empty; and when a record is rejected with the bounds of an axis but
  not without them, it has a valid date on that axis, and a bound that is a valid date
  lies strictly above it (lower bound) or strictly below it (upper bound).
\<close>

theorem filterItem_missing_date:
  "(poDateObj item = None \<longrightarrow>
      filterItem env (f\<lparr>poDateFrom := a, poDateTo := b\<rparr>) su co ic item =
      filterItem env (f\<lparr>poDateFrom := [], poDateTo := []\<rparr>) su co ic item) \<and>
   (receivedDateObj item = None \<longrightarrow>
      filterItem env (f\<lparr>rcvDateFrom := a, rcvDateTo := b\<rparr>) su co ic item =
      filterItem env (f\<lparr>rcvDateFrom := [], rcvDateTo := []\<rparr>) su co ic item) \<and>
   (filterItem env f su co ic item = Inr False \<and>
    filterItem env (f\<lparr>poDateFrom := [], poDateTo := []\<rparr>) su co ic item \<noteq> Inr False \<longrightarrow>
      (\<exists>t c. poDateObj item = Some (ValidDate t) \<and>
         (poDateFrom f \<noteq> [] \<and> newDateStr env (poDateFrom f) = ValidDate c \<and> t < c \<or>
          poDateTo f \<noteq> [] \<and> newDateStr env (poDateTo f) = ValidDate c \<and> c < t))) \<and>
   (filterItem env f su co ic item = Inr False \<and>
    filterItem env (f\<lparr>rcvDateFrom := [], rcvDateTo := []\<rparr>) su co ic item \<noteq> Inr False \<longrightarrow>
      (\<exists>t c. receivedDateObj item = Some (ValidDate t) \<and>
         (rcvDateFrom f \<noteq> [] \<and> newDateStr env (rcvDateFrom f) = ValidDate c \<and> t < c \<or>
          rcvDateTo f \<noteq> [] \<and> newDateStr env (rcvDateTo f) = ValidDate c \<and> c < t)))"
proof (intro conjI impI)
  assume "poDateObj item = None"
  then show "filterItem env (f\<lparr>poDateFrom := a, poDateTo := b\<rparr>) su co ic item =
      filterItem env (f\<lparr>poDateFrom := [], poDateTo := []\<rparr>) su co ic item"
    by (simp add: filterItem_alt)
next
  assume "receivedDateObj item = None"
  then show "filterItem env (f\<lparr>rcvDateFrom := a, rcvDateTo := b\<rparr>) su co ic item =
      filterItem env (f\<lparr>rcvDateFrom := [], rcvDateTo := []\<rparr>) su co ic item"
    by (simp add: filterItem_alt)
next
  assume "filterItem env f su co ic item = Inr False \<and>
    filterItem env (f\<lparr>poDateFrom := [], poDateTo := []\<rparr>) su co ic item \<noteq> Inr False"
  then show "\<exists>t c. poDateObj item = Some (ValidDate t) \<and>
         (poDateFrom f \<noteq> [] \<and> newDateStr env (poDateFrom f) = ValidDate c \<and> t < c \<or>
          poDateTo f \<noteq> [] \<and> newDateStr env (poDateTo f) = ValidDate c \<and> c < t)"
    using po_axis_only_rejects_outside by blast
next
  assume "filterItem env f su co ic item = Inr False \<and>
    filterItem env (f\<lparr>rcvDateFrom := [], rcvDateTo := []\<rparr>) su co ic item \<noteq> Inr False"
  then show "\<exists>t c. receivedDateObj item = Some (ValidDate t) \<and>
         (rcvDateFrom f \<noteq> [] \<and> newDateStr env (rcvDateFrom f) = ValidDate c \<and> t < c \<or>
          rcvDateTo f \<noteq> [] \<and> newDateStr env (rcvDateTo f) = ValidDate c \<and> c < t)"
    using rcv_axis_only_rejects_outside by blast
qed

theorem filterItem_missing_date_witness:
  "poDateObj rec_undated = None \<and> receivedDateObj rec_undated = None \<and>
   filterItem jakarta (noFilters\<lparr>poDateFrom := ''2024-01-01'', poDateTo := ''2024-12-31''\<rparr>)
     [] [] [] rec_undated = Inr True \<and>
   filterItem jakarta (noFilters\<lparr>rcvDateFrom := ''2024-01-01'', rcvDateTo := ''2024-12-31''\<rparr>)
     [] [] [] rec_undated = Inr True \<and>
   filterItem jakarta (noFilters\<lparr>poDateFrom := ''2024-01-01''\<rparr>) [] [] [] rec_old = Inr False \<and>
   filterItem jakarta (noFilters\<lparr>rcvDateFrom := ''2024-01-01''\<rparr>) [] [] [] rec_old = Inr False \<and>
   (\<exists>t c. poDateObj rec_old = Some (ValidDate t) \<and>
           newDateStr jakarta ''2024-01-01'' = ValidDate c \<and> t < c) \<and>
   (\<exists>t c. receivedDateObj rec_old = Some (ValidDate t) \<and>
           newDateStr jakarta ''2024-01-01'' = ValidDate c \<and> t < c)"
proof -
  have none: "poDateObj rec_undated = None" "receivedDateObj rec_undated = None"
    by (simp_all add: rec_undated_def)
  have open_undated: "filterItem jakarta noFilters [] [] [] rec_undated = Inr True"
    by (simp add: filter_defs)
  have open_old: "filterItem jakarta noFilters [] [] [] rec_old = Inr True"
    by (simp add: filter_defs)
  have po_old: "filterItem jakarta (noFilters\<lparr>poDateFrom := ''2024-01-01''\<rparr>) [] [] [] rec_old = Inr False"
    by (simp add: filterItem_def iso_2024_01_01 date_lt_def rec_old_def noFilters_def)
  have rcv_old: "filterItem jakarta (noFilters\<lparr>rcvDateFrom := ''2024-01-01''\<rparr>) [] [] [] rec_old = Inr False"
    by (simp add: filterItem_def iso_2024_01_01 date_lt_def rec_old_def noFilters_def)
  have clear: "noFilters\<lparr>poDateFrom := [], poDateTo := []\<rparr> = noFilters"
    "noFilters\<lparr>rcvDateFrom := [], rcvDateTo := []\<rparr> = noFilters"
    "noFilters\<lparr>poDateFrom := ''2024-01-01'', poDateFrom := [], poDateTo := []\<rparr> = noFilters"
    "noFilters\<lparr>rcvDateFrom := ''2024-01-01'', rcvDateFrom := [], rcvDateTo := []\<rparr> = noFilters"
    by (simp_all add: noFilters_def)
  have a: "filterItem jakarta (noFilters\<lparr>poDateFrom := ''2024-01-01'', poDateTo := ''2024-12-31''\<rparr>)
     [] [] [] rec_undated = Inr True"
    using filterItem_missing_date [where item = rec_undated and env = jakarta and f = noFilters
        and a = "''2024-01-01''" and b = "''2024-12-31''" and su = "[]" and co = "[]" and ic = "[]"] none open_undated clear
    by simp
  have b: "filterItem jakarta (noFilters\<lparr>rcvDateFrom := ''2024-01-01'', rcvDateTo := ''2024-12-31''\<rparr>)
     [] [] [] rec_undated = Inr True"
    using filterItem_missing_date [where item = rec_undated and env = jakarta and f = noFilters
        and a = "''2024-01-01''" and b = "''2024-12-31''" and su = "[]" and co = "[]" and ic = "[]"] none open_undated clear
    by simp
  have c: "\<exists>t c. poDateObj rec_old = Some (ValidDate t) \<and>
           newDateStr jakarta ''2024-01-01'' = ValidDate c \<and> t < c"
    using filterItem_missing_date [where item = rec_old and env = jakarta
        and f = "noFilters\<lparr>poDateFrom := ''2024-01-01''\<rparr>" and su = "[]" and co = "[]" and ic = "[]"] po_old open_old clear
    by (simp add: noFilters_def)
  have d: "\<exists>t c. receivedDateObj rec_old = Some (ValidDate t) \<and>
           newDateStr jakarta ''2024-01-01'' = ValidDate c \<and> t < c"
    using filterItem_missing_date [where item = rec_old and env = jakarta
        and f = "noFilters\<lparr>rcvDateFrom := ''2024-01-01''\<rparr>" and su = "[]" and co = "[]" and ic = "[]"] rcv_old open_old clear
    by (simp add: noFilters_def)
  from none a b c d po_old rcv_old show ?thesis by blast
qed

text \<open>
  C10: when the time value of the record's date equals that of the bound, the bound
  does not change the verdict, for each of the four bounds; a date strictly below a
  lower bound, or strictly above an upper bound, is rejected.
\<close>

theorem filterItem_bounds_inclusive:
  "(poDateObj item = Some (ValidDate t) \<and> newDateStr env (poDateFrom f) = ValidDate t \<longrightarrow>
      filterItem env f su co ic item = filterItem env (f\<lparr>poDateFrom := []\<rparr>) su co ic item) \<and>
   (poDateObj item = Some (ValidDate t) \<and> newDateStr env (poDateTo f) = ValidDate t \<longrightarrow>
      filterItem env f su co ic item = filterItem env (f\<lparr>poDateTo := []\<rparr>) su co ic item) \<and>
   (receivedDateObj item = Some (ValidDate t) \<and> newDateStr env (rcvDateFrom f) = ValidDate t \<longrightarrow>
      filterItem env f su co ic item = filterItem env (f\<lparr>rcvDateFrom := []\<rparr>) su co ic item) \<and>
   (receivedDateObj item = Some (ValidDate t) \<and> newDateStr env (rcvDateTo f) = ValidDate t \<longrightarrow>
      filterItem env f su co ic item = filterItem env (f\<lparr>rcvDateTo := []\<rparr>) su co ic item) \<and>
   (poDateObj item = Some (ValidDate t) \<and> poDateFrom f \<noteq> [] \<and>
    newDateStr env (poDateFrom f) = ValidDate c \<and> t < c \<longrightarrow>
      filterItem env f su co ic item = Inr False) \<and>
   (poDateObj item = Some (ValidDate t) \<and> poDateTo f \<noteq> [] \<and>
    newDateStr env (poDateTo f) = ValidDate c \<and> c < t \<longrightarrow>
      filterItem env f su co ic item = Inr False) \<and>
   (receivedDateObj item = Some (ValidDate t) \<and> rcvDateFrom f \<noteq> [] \<and>
    newDateStr env (rcvDateFrom f) = ValidDate c \<and> t < c \<longrightarrow>
      filterItem env f su co ic item = Inr False) \<and>
   (receivedDateObj item = Some (ValidDate t) \<and> rcvDateTo f \<noteq> [] \<and>
    newDateStr env (rcvDateTo f) = ValidDate c \<and> c < t \<longrightarrow>
      filterItem env f su co ic item = Inr False)"
proof (intro conjI impI)
  assume "poDateObj item = Some (ValidDate t) \<and> newDateStr env (poDateFrom f) = ValidDate t"
  then show "filterItem env f su co ic item = filterItem env (f\<lparr>poDateFrom := []\<rparr>) su co ic item"
    by (simp add: filterItem_alt date_lt_def)
next
  assume "poDateObj item = Some (ValidDate t) \<and> newDateStr env (poDateTo f) = ValidDate t"
  then show "filterItem env f su co ic item = filterItem env (f\<lparr>poDateTo := []\<rparr>) su co ic item"
    by (simp add: filterItem_alt date_gt_def num_gt_def)
next
  assume "receivedDateObj item = Some (ValidDate t) \<and> newDateStr env (rcvDateFrom f) = ValidDate t"
  then show "filterItem env f su co ic item = filterItem env (f\<lparr>rcvDateFrom := []\<rparr>) su co ic item"
    by (simp add: filterItem_alt date_lt_def)
next
  assume "receivedDateObj item = Some (ValidDate t) \<and> newDateStr env (rcvDateTo f) = ValidDate t"
  then show "filterItem env f su co ic item = filterItem env (f\<lparr>rcvDateTo := []\<rparr>) su co ic item"
    by (simp add: filterItem_alt date_gt_def num_gt_def)
next
  assume "poDateObj item = Some (ValidDate t) \<and> poDateFrom f \<noteq> [] \<and>
    newDateStr env (poDateFrom f) = ValidDate c \<and> t < c"
  then show "filterItem env f su co ic item = Inr False"
    by (simp add: filterItem_alt date_lt_def)
next
  assume "poDateObj item = Some (ValidDate t) \<and> poDateTo f \<noteq> [] \<and>
    newDateStr env (poDateTo f) = ValidDate c \<and> c < t"
  then show "filterItem env f su co ic item = Inr False"
    by (simp add: filterItem_alt date_gt_def num_gt_def)
next
  assume "receivedDateObj item = Some (ValidDate t) \<and> rcvDateFrom f \<noteq> [] \<and>
    newDateStr env (rcvDateFrom f) = ValidDate c \<and> t < c"
  then show "filterItem env f su co ic item = Inr False"
    by (simp add: filterItem_alt date_lt_def)
next
  assume "receivedDateObj item = Some (ValidDate t) \<and> rcvDateTo f \<noteq> [] \<and>
    newDateStr env (rcvDateTo f) = ValidDate c \<and> c < t"
  then show "filterItem env f su co ic item = Inr False"
    by (simp add: filterItem_alt date_gt_def num_gt_def)
qed

theorem filterItem_bounds_inclusive_witness:
  "poDateObj rec_acme_utc = Some (ValidDate 1704067200000) \<and>
   newDateStr greenwich ''2024-01-01'' = ValidDate 1704067200000 \<and>
   filterItem greenwich (noFilters\<lparr>poDateFrom := ''2024-01-01''\<rparr>) [] [] [] rec_acme_utc = Inr True \<and>
   filterItem greenwich (noFilters\<lparr>poDateTo := ''2024-01-01''\<rparr>) [] [] [] rec_acme_utc = Inr True \<and>
   filterItem greenwich (noFilters\<lparr>poDateFrom := ''2024-12-31''\<rparr>) [] [] [] rec_acme_utc = Inr False"
proof -
  have po: "poDateObj rec_acme_utc = Some (ValidDate 1704067200000)"
    by (simp add: rec_acme_utc_def)
  have bound: "newDateStr greenwich ''2024-01-01'' = ValidDate 1704067200000"
    by (simp add: iso_greenwich iso_2024_01_01)
  have bound2: "newDateStr greenwich ''2024-12-31'' = ValidDate 1735603200000"
    by (simp add: iso_greenwich iso_2024_12_31)
  have open_acme: "filterItem greenwich noFilters [] [] [] rec_acme_utc = Inr True"
    by (simp add: filter_defs)
  have clear: "noFilters\<lparr>poDateFrom := ''2024-01-01'', poDateFrom := []\<rparr> = noFilters"
    "noFilters\<lparr>poDateTo := ''2024-01-01'', poDateTo := []\<rparr> = noFilters"
    by (simp_all add: noFilters_def)
  have a: "filterItem greenwich (noFilters\<lparr>poDateFrom := ''2024-01-01''\<rparr>) [] [] [] rec_acme_utc = Inr True"
    using filterItem_bounds_inclusive [where item = rec_acme_utc and t = 1704067200000
        and env = greenwich and f = "noFilters\<lparr>poDateFrom := ''2024-01-01''\<rparr>"
        and su = "[]" and co = "[]" and ic = "[]" and c = 0] po bound open_acme clear
    by (simp add: noFilters_def)
  have b: "filterItem greenwich (noFilters\<lparr>poDateTo := ''2024-01-01''\<rparr>) [] [] [] rec_acme_utc = Inr True"
    using filterItem_bounds_inclusive [where item = rec_acme_utc and t = 1704067200000
        and env = greenwich and f = "noFilters\<lparr>poDateTo := ''2024-01-01''\<rparr>"
        and su = "[]" and co = "[]" and ic = "[]" and c = 0] po bound open_acme clear
    by (simp add: noFilters_def)
  have c: "filterItem greenwich (noFilters\<lparr>poDateFrom := ''2024-12-31''\<rparr>) [] [] [] rec_acme_utc = Inr False"
    using filterItem_bounds_inclusive [where item = rec_acme_utc and t = 1704067200000
        and env = greenwich and f = "noFilters\<lparr>poDateFrom := ''2024-12-31''\<rparr>"
        and su = "[]" and co = "[]" and ic = "[]" and c = 1735603200000] po bound2
    by (simp add: noFilters_def)
  from po bound a b c show ?thesis by blast
qed

text \<open>
  The dates compared are time values. A record date is local midnight and a bound is UTC
  midnight, so east of Greenwich the record of a day lies before the bound of the same
  day.
\<close>

lemma filterItem_same_day_jakarta:
  "filterItem jakarta (noFilters\<lparr>poDateFrom := ''2024-01-01''\<rparr>) [] [] [] rec_acme = Inr False"
  by (simp add: filterItem_def iso_2024_01_01 date_lt_def rec_acme_def noFilters_def)

text \<open>
  The needle of a text filter is matched in lower case; a record without the field
  makes the predicate throw when the needle is not empty.
\<close>

lemma filterItem_supplier_sample:
  "filterItem jakarta noFilters (toLowerCase jakarta ''ACM'') [] [] rec_acme = Inr True"
  "filterItem jakarta noFilters (toLowerCase jakarta ''zzz'') [] [] rec_acme = Inr False"
  by (simp_all add: filter_defs sample_defs jakarta_def ascii_lower_def)

lemma filterItem_missing_supplier:
  "filterItem env noFilters ''acm'' [] [] (rec_acme\<lparr>raw := []\<rparr>) =
     Inl (CannotReadProperty ''toLowerCase'')"
  by (simp add: filter_defs)

subsection \<open>Statistics\<close>

text \<open>
  When no addition rounds, the mean is the exact mean of the numbers, rounded once. Sums
  of integers below \<open>2^53\<close> do not round.
\<close>

lemma foldl_exact_sums:
  "exact_sums acc rs \<Longrightarrow> foldl num_add (Fin acc) (map Fin rs) = Fin (acc + sum_list rs)"
  by (induction rs arbitrary: acc) (simp_all add: add.assoc)

lemma mean_exact_sums:
  "rs \<noteq> [] \<Longrightarrow> exact_sums 0 rs \<Longrightarrow>
   mean (map Fin rs) = nearest_double (sum_list rs / of_nat (length rs))"
  by (simp add: mean_def foldl_exact_sums)

lemma exact_sums_ints:
  "\<bar>acc\<bar> + (\<Sum>k\<leftarrow>ks. \<bar>k\<bar>) < 2 ^ 53 \<Longrightarrow> exact_sums (of_int acc) (map of_int ks)"
proof (induction ks arbitrary: acc)
  case Nil
  show ?case by simp
next
  case (Cons k ks)
  have "0 \<le> (\<Sum>k\<leftarrow>ks. \<bar>k\<bar>)"
    by (rule sum_list_nonneg) auto
  with Cons.prems have "\<bar>acc + k\<bar> < 2 ^ 53"
    by simp
  then have here: "nearest_double (of_int (acc + k)) = Fin (of_int (acc + k))"
    by (rule nearest_double_int)
  from Cons.prems have "\<bar>acc + k\<bar> + (\<Sum>k\<leftarrow>ks. \<bar>k\<bar>) < 2 ^ 53"
    by simp
  then have "exact_sums (of_int (acc + k)) (map of_int ks)"
    by (rule Cons.IH)
  with here show ?case
    by simp
qed

lemma sum_list_of_int: "sum_list (map real_of_int ks) = of_int (sum_list ks)"
  by (induction ks) simp_all

lemma mean_ints:
  assumes "ks \<noteq> []" and "(\<Sum>k\<leftarrow>ks. \<bar>k\<bar>) < 2 ^ 53"
  shows "mean (map (\<lambda>k. Fin (of_int k)) ks) =
           nearest_double (of_int (sum_list ks) / of_nat (length ks))"
proof -
  from assms(2) have "exact_sums (of_int 0) (map of_int ks)"
    by (intro exact_sums_ints) simp
  then have "exact_sums 0 (map real_of_int ks)"
    by simp
  with assms(1) show ?thesis
    using mean_exact_sums [of "map real_of_int ks"] by (simp add: comp_def sum_list_of_int)
qed

text \<open>
  The doubles of \<open>0.1\<close> and \<open>0.2\<close>: their sum rounds, and their mean is the double of
  \<open>0.15000000000000002\<close>, not that of \<open>0.15\<close>.
\<close>

lemma mean_tenths:
  "nearest_double (1 / 10) = Fin (3602879701896397 / 2 ^ 55)"
  "nearest_double (2 / 10) = Fin (3602879701896397 / 2 ^ 54)"
  "nearest_double (15 / 100) = Fin (5404319552844595 / 2 ^ 55)"
  "mean [Fin (3602879701896397 / 2 ^ 55), Fin (3602879701896397 / 2 ^ 54)] =
     Fin (5404319552844596 / 2 ^ 55)"
  by (simp_all add: mean_def double_defs Let_def)

lemma set_key_of_value:
  "\<not> is_reference v \<Longrightarrow> set_key_of i v = (case v of None \<Rightarrow> KUndef | Some j \<Rightarrow> KPrim j)"
  by (cases v rule: is_reference.cases) (simp_all add: set_key_of_def)

lemma po_keys_values_aux:
  "\<forall>r \<in> set rs. \<not> is_reference (nomorPO r) \<Longrightarrow>
   map (\<lambda>(i, item). set_key_of i (map_of (raw item) ''nomorPO'')) (enumerate n rs) =
   map (\<lambda>r. case nomorPO r of None \<Rightarrow> KUndef | Some j \<Rightarrow> KPrim j) rs"
proof (induction rs arbitrary: n)
  case Nil
  show ?case by simp
next
  case (Cons r rs)
  then show ?case by (simp add: set_key_of_value nomorPO_def)
qed

lemma card_po_keys_values:
  assumes "\<forall>r \<in> set rs. \<not> is_reference (nomorPO r)"
  shows "card (set (po_keys rs)) = card (nomorPO ` set rs)"
proof -
  let ?k = "\<lambda>v. case v of None \<Rightarrow> KUndef | Some j \<Rightarrow> KPrim j"
  have "po_keys rs = map (\<lambda>r. ?k (nomorPO r)) rs"
    using po_keys_values_aux [OF assms] by (simp add: po_keys_def)
  then have "set (po_keys rs) = ?k ` (nomorPO ` set rs)"
    by (simp add: image_image)
  moreover have "inj ?k"
    by (auto simp add: inj_def split: option.splits)
  ultimately show ?thesis
    by (simp add: card_image inj_on_def inj_def)
qed

lemma sample_nomorPO:
  "nomorPO rec_acme = Some (JStr ''PO1'')" "nomorPO rec_old = Some (JStr ''PO2'')"
  "nomorPO rec_undated = Some (JStr ''PO3'')"
  by (simp_all add: nomorPO_def sample_defs)

text \<open>
  C7: \<open>totalPO\<close> is the number of distinct members of the set built from the
  \<open>nomorPO\<close> values (when none of them is an array or an object, the number of distinct
  \<open>nomorPO\<close> values), \<open>totalItems\<close> is the length of the view, the two averages are
  the arithmetic means of \<open>sla\<close> and \<open>avgDays\<close> over the view, in the arithmetic of
  doubles: the sum, added up in the order of the view, divided by the length. When the
  values are finite and no addition rounds, that is the exact mean rounded once. On the
  empty view all four are 0.
\<close>

theorem updateStatistics_summary:
  "totalPO (updateStatistics s) = card (set (po_keys (filteredData s))) \<and>
   ((\<forall>r \<in> set (filteredData s). \<not> is_reference (nomorPO r)) \<longrightarrow>
      totalPO (updateStatistics s) = card (nomorPO ` set (filteredData s))) \<and>
   totalItems (updateStatistics s) = length (filteredData s) \<and>
   (filteredData s \<noteq> [] \<longrightarrow>
      avgSLA (updateStatistics s) = mean (map sla (filteredData s)) \<and>
      avgDaysAll (updateStatistics s) = mean (map avgDays (filteredData s))) \<and>
   (filteredData s \<noteq> [] \<and> map sla (filteredData s) = map Fin slas \<and> exact_sums 0 slas \<longrightarrow>
      avgSLA (updateStatistics s) = nearest_double (sum_list slas / of_nat (length slas))) \<and>
   (filteredData s \<noteq> [] \<and> map avgDays (filteredData s) = map Fin days \<and>
    exact_sums 0 days \<longrightarrow>
      avgDaysAll (updateStatistics s) = nearest_double (sum_list days / of_nat (length days))) \<and>
   (filteredData s = [] \<longrightarrow>
      updateStatistics s =
        \<lparr> totalPO = 0, totalItems = 0, avgSLA = Fin 0, avgDaysAll = Fin 0 \<rparr>)"
proof -
  have keys: "totalPO (updateStatistics s) = card (set (po_keys (filteredData s)))"
    by (simp add: updateStatistics_def card_set)
  have a1: "avgSLA (updateStatistics s) = mean (map sla (filteredData s))"
    if "filteredData s \<noteq> []"
    using that by (simp add: updateStatistics_def mean_def foldl_map)
  have a2: "avgDaysAll (updateStatistics s) = mean (map avgDays (filteredData s))"
    if "filteredData s \<noteq> []"
    using that by (simp add: updateStatistics_def mean_def foldl_map)
  have e1: "avgSLA (updateStatistics s) = nearest_double (sum_list slas / of_nat (length slas))"
    if "filteredData s \<noteq> [] \<and> map sla (filteredData s) = map Fin slas \<and> exact_sums 0 slas"
  proof -
    from that have "slas \<noteq> []" by auto
    with that a1 mean_exact_sums [of slas] show ?thesis by simp
  qed
  have e2: "avgDaysAll (updateStatistics s) =
      nearest_double (sum_list days / of_nat (length days))"
    if "filteredData s \<noteq> [] \<and> map avgDays (filteredData s) = map Fin days \<and> exact_sums 0 days"
  proof -
    from that have "days \<noteq> []" by auto
    with that a2 mean_exact_sums [of days] show ?thesis by simp
  qed
  have empty: "filteredData s = [] \<Longrightarrow> updateStatistics s =
        \<lparr> totalPO = 0, totalItems = 0, avgSLA = Fin 0, avgDaysAll = Fin 0 \<rparr>"
    by (simp add: updateStatistics_def po_keys_def)
  have len: "totalItems (updateStatistics s) = length (filteredData s)"
    by (simp add: updateStatistics_def)
  from keys a1 a2 e1 e2 empty len show ?thesis
    using card_po_keys_values [of "filteredData s"] by simp
qed

theorem updateStatistics_summary_witness:
  "updateStatistics (initial\<lparr>filteredData := [rec_acme, rec_old, rec_undated, rec_acme]\<rparr>) =
     \<lparr> totalPO = 3, totalItems = 4, avgSLA = Fin 90, avgDaysAll = Fin (9 / 2) \<rparr> \<and>
   map sla [rec_acme, rec_old, rec_undated, rec_acme] = map Fin [80, 160, 40, 80] \<and>
   exact_sums 0 [80, 160, 40, 80] \<and>
   map avgDays [rec_acme, rec_old, rec_undated, rec_acme] = map Fin [4, 10, 0, 4] \<and>
   exact_sums 0 [4, 10, 0, 4] \<and>
   updateStatistics initial = \<lparr> totalPO = 0, totalItems = 0, avgSLA = Fin 0, avgDaysAll = Fin 0 \<rparr>"
proof -
  let ?s = "initial\<lparr>filteredData := [rec_acme, rec_old, rec_undated, rec_acme]\<rparr>"
  have view: "filteredData ?s = [rec_acme, rec_old, rec_undated, rec_acme]"
    by simp
  have prim: "\<forall>r \<in> set (filteredData ?s). \<not> is_reference (nomorPO r)"
    by (simp add: sample_nomorPO)
  have "nomorPO ` set (filteredData ?s) = {Some (JStr ''PO1''), Some (JStr ''PO2''), Some (JStr ''PO3'')}"
    by (auto simp add: sample_nomorPO)
  then have three: "card (nomorPO ` set (filteredData ?s)) = 3"
    by simp
  have slas: "map sla [rec_acme, rec_old, rec_undated, rec_acme] = map Fin [80, 160, 40, 80]"
    by (simp add: sample_defs)
  have days: "map avgDays [rec_acme, rec_old, rec_undated, rec_acme] = map Fin [4, 10, 0, 4]"
    by (simp add: sample_defs)
  have x1: "exact_sums 0 [80, 160, 40, 80]"
    by (simp add: double_defs Let_def)
  have x2: "exact_sums 0 [4, 10, 0, 4]"
    by (simp add: double_defs Let_def)
  have m1: "nearest_double (sum_list [80, 160, 40, 80] / of_nat (length [80, 160, 40, 80 :: real])) = Fin 90"
    by (simp add: double_defs Let_def)
  have m2: "nearest_double (sum_list [4, 10, 0, 4] / of_nat (length [4, 10, 0, 4 :: real])) = Fin (9 / 2)"
    by (simp add: double_defs Let_def)
  note t = updateStatistics_summary [where s = "?s" and slas = "[80, 160, 40, 80]"
      and days = "[4, 10, 0, 4]"]
  from t prim have "totalPO (updateStatistics ?s) = card (nomorPO ` set (filteredData ?s))"
    by blast
  with three have po: "totalPO (updateStatistics ?s) = 3"
    by (simp only:)
  from t have n: "totalItems (updateStatistics ?s) = 4"
    by simp
  have ne: "filteredData ?s \<noteq> []"
    by simp
  have sl: "map sla (filteredData ?s) = map Fin [80, 160, 40, 80]"
    unfolding view by (rule slas)
  have dl: "map avgDays (filteredData ?s) = map Fin [4, 10, 0, 4]"
    unfolding view by (rule days)
  from ne sl x1 have pre1: "filteredData ?s \<noteq> [] \<and>
      map sla (filteredData ?s) = map Fin [80, 160, 40, 80] \<and> exact_sums 0 [80, 160, 40, 80]"
    by (intro conjI)
  from ne dl x2 have pre2: "filteredData ?s \<noteq> [] \<and>
      map avgDays (filteredData ?s) = map Fin [4, 10, 0, 4] \<and> exact_sums 0 [4, 10, 0, 4]"
    by (intro conjI)
  from t pre1 have "avgSLA (updateStatistics ?s) =
      nearest_double (sum_list [80, 160, 40, 80] / of_nat (length [80, 160, 40, 80 :: real]))"
    by blast
  with m1 have v1: "avgSLA (updateStatistics ?s) = Fin 90"
    by (simp only:)
  from t pre2 have "avgDaysAll (updateStatistics ?s) =
      nearest_double (sum_list [4, 10, 0, 4] / of_nat (length [4, 10, 0, 4 :: real]))"
    by blast
  with m2 have v2: "avgDaysAll (updateStatistics ?s) = Fin (9 / 2)"
    by (simp only:)
  from po n v1 v2 have a: "updateStatistics ?s =
      \<lparr> totalPO = 3, totalItems = 4, avgSLA = Fin 90, avgDaysAll = Fin (9 / 2) \<rparr>"
    by (cases "updateStatistics ?s") simp
  have b: "updateStatistics initial = \<lparr> totalPO = 0, totalItems = 0, avgSLA = Fin 0, avgDaysAll = Fin 0 \<rparr>"
    using updateStatistics_summary [of initial] by (simp add: initial_def)
  from a slas x1 days x2 b show ?thesis
    by (intro conjI)
qed

subsection \<open>Export\<close>

lemma split_on_no_sep: "c \<notin> set x \<Longrightarrow> split_on c x = [x]"
  by (induction x) auto

lemma split_on_append_sep:
  "c \<notin> set x \<Longrightarrow> split_on c (x @ c # rest) = x # split_on c rest"
  by (induction x) auto

lemma split_on_join_with:
  "xs \<noteq> [] \<Longrightarrow> \<forall>x \<in> set xs. c \<notin> set x \<Longrightarrow> split_on c (join_with [c] xs) = xs"
proof (induction xs rule: induct_list012)
  case 1
  then show ?case by simp
next
  case (2 x)
  then show ?case by (simp add: split_on_no_sep)
next
  case (3 x y ys)
  then show ?case by (simp add: split_on_append_sep)
qed

lemma length_csv_row: "length (csv_row env item) = 13"
  by (simp add: csv_row_def)

text \<open>
  C9: for every view the text built for export is the header line followed by one line
  per record, in the order of the view, joined by line feeds (splitting the text at
  line feeds gives back exactly these lines when no cell contains a line feed); the
  line of a record is its 13 cells in the fixed order, each between two quote
  characters, joined by commas; the text of a string cell is the string itself, no
  character of it escaped; and \<open>exportToCSV\<close> hands this text over unless the view is
  empty.
\<close>

theorem exportToCSV_rows:
  "csvContent env view = join_with [CHR 0x0A] (header_line # map (row_text env) view) \<and>
   ((\<forall>l \<in> set (header_line # map (row_text env) view). CHR 0x0A \<notin> set l) \<longrightarrow>
      split_on (CHR 0x0A) (csvContent env view) = header_line # map (row_text env) view) \<and>
   exportToCSV env s =
     (if filteredData s = [] then None else Some (csvContent env (filteredData s))) \<and>
   row_text env item =
     join_with '','' (map (\<lambda>cell. [CHR 0x22] @ cell @ [CHR 0x22]) (csv_row env item)) \<and>
   csv_row env item =
     [cell_text env (map_of (raw item) ''nomorPO''),
      cell_text env (map_of (raw item) ''itemCode''),
      cell_text env (map_of (raw item) ''itemName''),
      cell_text env (map_of (raw item) ''supplierName''),
      cell_text env (map_of (raw item) ''contract''),
      cell_text env (map_of (raw item) ''poDate''),
      cell_text env (map_of (raw item) ''qtyPO''),
      cell_text env (map_of (raw item) ''poValue''),
      cell_text env (map_of (raw item) ''receivedDate''),
      cell_text env (map_of (raw item) ''qtyReceived''),
      cell_text env (map_of (raw item) ''receivedValue''),
      toFixed2 env (sla item),
      num_to_string env (avgDays item)] \<and>
   length (csv_row env item) = 13 \<and>
   cell_text env (Some (JStr t)) = t"
proof -
  have "row_text env = (\<lambda>row. join_with '','' (map quote_cell row)) \<circ> csv_row env"
    by (rule ext) (simp add: row_text_def)
  then have a: "csvContent env view = join_with [CHR 0x0A] (header_line # map (row_text env) view)"
    by (simp add: csvContent_def header_line_def Let_def)
  have b: "split_on (CHR 0x0A) (csvContent env view) = header_line # map (row_text env) view"
    if "\<forall>l \<in> set (header_line # map (row_text env) view). CHR 0x0A \<notin> set l"
    using that split_on_join_with [of "header_line # map (row_text env) view" "CHR 0x0A"]
    by (simp add: a)
  have "quote_cell = (\<lambda>cell. [CHR 0x22] @ cell @ [CHR 0x22])"
    by (rule ext) (simp add: quote_cell_def)
  then have c: "row_text env item =
     join_with '','' (map (\<lambda>cell. [CHR 0x22] @ cell @ [CHR 0x22]) (csv_row env item))"
    by (simp add: row_text_def)
  have d: "cell_text env (Some (JStr t)) = t"
    by (simp add: cell_text_def)
  have e: "exportToCSV env s =
     (if filteredData s = [] then None else Some (csvContent env (filteredData s)))"
    by (simp add: exportToCSV_def)
  from a b c d e show ?thesis
    by (simp add: length_csv_row) (simp add: csv_row_def)
qed

theorem exportToCSV_rows_witness:
  \<open>exportToCSV jakarta (initial\<lparr>filteredData := [rec_acme, rec_undated]\<rparr>) =
     Some (''Nomor PO,Item Code,Item Name,Supplier Name,Contract/Principal,PO Date,Qty PO,PO Value,Received Date,Qty Received,Received Value,SLA (%),Avg Days'' @ [CHR 0x0A] @
           ''"PO1","X1","Bolt","Acme","C1","01/01/2024","10","100","05/01/2024","8","80","80.00","4"'' @ [CHR 0x0A] @
           ''"PO3","Z3","Washer","Cedar","C3","undefined","20","200","undefined","8","80","40.00","0"'') \<and>
   split_on (CHR 0x0A) (csvContent jakarta [rec_acme, rec_undated]) =
     [header_line, row_text jakarta rec_acme, row_text jakarta rec_undated]\<close>
proof -
  let ?s = "initial\<lparr>filteredData := [rec_acme, rec_undated]\<rparr>"
  have h: "header_line = ''Nomor PO,Item Code,Item Name,Supplier Name,Contract/Principal,PO Date,Qty PO,PO Value,Received Date,Qty Received,Received Value,SLA (%),Avg Days''"
    by (simp add: header_line_def headers_def)
  have r1: \<open>row_text jakarta rec_acme =
      ''"PO1","X1","Bolt","Acme","C1","01/01/2024","10","100","05/01/2024","8","80","80.00","4"''\<close>
    by (simp add: row_text_def csv_row_def cell_text_def quote_cell_def sample_defs toFixed2_def
          num_to_string_def jakarta_defs digit_char_def Let_def)
  have r2: \<open>row_text jakarta rec_undated =
      ''"PO3","Z3","Washer","Cedar","C3","undefined","20","200","undefined","8","80","40.00","0"''\<close>
    by (simp add: row_text_def csv_row_def cell_text_def quote_cell_def sample_defs toFixed2_def
          num_to_string_def jakarta_defs digit_char_def Let_def)
  note t = exportToCSV_rows [where s = "?s" and env = jakarta and view = "[rec_acme, rec_undated]"]
  from t [THEN conjunct1] have content: "csvContent jakarta [rec_acme, rec_undated] =
      join_with [CHR 0x0A] [header_line, row_text jakarta rec_acme, row_text jakarta rec_undated]"
    by simp
  have nolf: "\<forall>l \<in> set (header_line # map (row_text jakarta) [rec_acme, rec_undated]).
      CHR 0x0A \<notin> set l"
    by (simp add: h r1 r2)
  with t [THEN conjunct2, THEN conjunct1]
  have sp: "split_on (CHR 0x0A) (csvContent jakarta [rec_acme, rec_undated]) =
      [header_line, row_text jakarta rec_acme, row_text jakarta rec_undated]"
    by simp
  from t [THEN conjunct2, THEN conjunct2, THEN conjunct1]
  have e: "exportToCSV jakarta ?s = Some (csvContent jakarta [rec_acme, rec_undated])"
    by simp
  from e content sp show ?thesis by (simp add: h r1 r2)
qed

text \<open>A quote character inside a cell stays as it is.\<close>

lemma row_text_embedded_quote:
  \<open>row_text env (rec_undated\<lparr>raw := [(''itemName'', JStr ''2" pipe'')]\<rparr>) =
     ''"undefined","undefined","2" pipe","undefined","undefined","undefined","undefined","undefined","undefined","undefined","undefined","40.00","'' @ numberToString env 0 @ ''"''\<close>
  by (simp add: row_text_def csv_row_def cell_text_def quote_cell_def rec_undated_def toFixed2_def
        num_to_string_def digits_of.simps digit_char_def Let_def)

subsection \<open>The fulfilment ratio\<close>

lemma digit_char_is_digit: "d < 10 \<Longrightarrow> is_digit (digit_char d)"
  by (simp add: digit_char_def is_digit_def)

lemma digit_val_digit_char: "d < 10 \<Longrightarrow> digit_val (digit_char d) = d"
  by (simp add: digit_char_def digit_val_def)

lemma digits_of_all_digits: "list_all is_digit (digits_of n)"
proof (induction n rule: digits_of.induct)
  case (1 n)
  show ?case
  proof (cases "n < 10")
    case True
    then show ?thesis by (subst digits_of.simps) (simp add: digit_char_is_digit)
  next
    case False
    with 1 show ?thesis
      by (subst digits_of.simps) (simp add: digit_char_is_digit)
  qed
qed

lemma digits_of_not_empty: "digits_of n \<noteq> []"
  by (subst digits_of.simps) simp

lemma digits_val_append: "digits_val acc (xs @ ys) = digits_val (digits_val acc xs) ys"
  by (induction xs arbitrary: acc) simp_all

lemma digits_val_digits_of: "digits_val 0 (digits_of n) = n"
proof (induction n rule: digits_of.induct)
  case (1 n)
  show ?case
  proof (cases "n < 10")
    case True
    then show ?thesis by (subst digits_of.simps) (simp add: digit_val_digit_char)
  next
    case False
    with 1 have "digits_val 0 (digits_of (n div 10)) = n div 10" by simp
    with False show ?thesis
      by (subst digits_of.simps) (simp add: digits_val_append digit_val_digit_char)
  qed
qed

lemma digits_val_zeros: "digits_val 0 (replicate k (CHR ''0'') @ ds) = digits_val 0 ds"
  by (induction k) (simp_all add: digit_val_def)

lemma takeWhile_digits_dot:
  "list_all is_digit a \<Longrightarrow> takeWhile is_digit (a @ CHR ''.'' # b) = a"
  by (induction a) (simp_all add: is_digit_def)

lemma dropWhile_digits_dot:
  "list_all is_digit a \<Longrightarrow> dropWhile is_digit (a @ CHR ''.'' # b) = CHR ''.'' # b"
  by (induction a) (simp_all add: is_digit_def)

lemma takeWhile_all: "list_all P b \<Longrightarrow> takeWhile P b = b"
  by (induction b) simp_all

lemma dropWhile_all: "list_all P b \<Longrightarrow> dropWhile P b = []"
  by (induction b) simp_all

lemma digit_not_special:
  "is_digit c \<Longrightarrow> c \<noteq> CHR ''-'' \<and> c \<noteq> CHR ''+'' \<and> c \<noteq> CHR ''I'' \<and> \<not> is_space c"
  by (auto simp add: is_digit_def is_space_def)

text \<open>Reading a text \<open>digits.digits\<close> whose integer part is not empty.\<close>

lemma decimal_prefix_fixed:
  assumes "list_all is_digit a" and "a \<noteq> []" and "list_all is_digit b"
  shows "decimal_prefix (a @ CHR ''.'' # b) =
           Some (nearest_double (of_nat (digits_val 0 (a @ b)) / 10 ^ length b), [])"
proof -
  from assms(1,2) obtain c cs where a: "a = c # cs" and c: "is_digit c"
    by (cases a) simp_all
  from c have "\<not> starts_with (a @ CHR ''.'' # b) ''Infinity''"
    using digit_not_special [of c] by (simp add: a)
  moreover have "exponent_part [] = (0, [])"
    by (simp add: exponent_part_def)
  ultimately show ?thesis
    using assms
    by (simp add: decimal_prefix_def takeWhile_digits_dot dropWhile_digits_dot takeWhile_all
          dropWhile_all Let_def scale10_def)
qed

lemma parseFloat_str_fixed:
  assumes "list_all is_digit a" and "a \<noteq> []" and "list_all is_digit b"
  shows "parseFloat_str (a @ CHR ''.'' # b) =
           nearest_double (of_nat (digits_val 0 (a @ b)) / 10 ^ length b)"
    and "parseFloat_str (CHR ''-'' # a @ CHR ''.'' # b) =
           nearest_double (- (of_nat (digits_val 0 (a @ b)) / 10 ^ length b))"
proof -
  from assms(1,2) obtain c cs where a: "a = c # cs" and c: "is_digit c"
    by (cases a) simp_all
  note d = digit_not_special [OF c]
  have dp: "decimal_prefix (c # cs @ CHR ''.'' # b) =
           Some (nearest_double (of_nat (digits_val 0 (a @ b)) / 10 ^ length b), [])"
    using decimal_prefix_fixed [OF assms] by (simp add: a)
  show "parseFloat_str (a @ CHR ''.'' # b) =
          nearest_double (of_nat (digits_val 0 (a @ b)) / 10 ^ length b)"
    using d dp by (simp add: parseFloat_str_def signed_decimal_prefix_def a)
  show "parseFloat_str (CHR ''-'' # a @ CHR ''.'' # b) =
           nearest_double (- (of_nat (digits_val 0 (a @ b)) / 10 ^ length b))"
    using dp
    by (simp add: parseFloat_str_def signed_decimal_prefix_def a is_space_def
          nearest_double_minus)
qed

text \<open>The digits that \<open>toFixed(2)\<close> writes for the integer \<open>n\<close>.\<close>

lemma padded_digits:
  fixes n :: nat
  defines "m \<equiv> replicate (3 - length (digits_of n)) (CHR ''0'') @ digits_of n"
  shows "list_all is_digit (take (length m - 2) m)"
    and "take (length m - 2) m \<noteq> []"
    and "list_all is_digit (drop (length m - 2) m)"
    and "length (drop (length m - 2) m) = 2"
    and "digits_val 0 (take (length m - 2) m @ drop (length m - 2) m) = n"
proof -
  have "list_all is_digit (replicate k (CHR ''0''))" for k
    by (induction k) (simp_all add: is_digit_def)
  then have all: "list_all is_digit m"
    by (simp add: m_def digits_of_all_digits)
  have len: "3 \<le> length m"
    by (simp add: m_def)
  from all show "list_all is_digit (take (length m - 2) m)"
    by (auto simp add: list_all_iff dest: in_set_takeD)
  from len show "take (length m - 2) m \<noteq> []"
    by auto
  from all show "list_all is_digit (drop (length m - 2) m)"
    by (auto simp add: list_all_iff dest: in_set_dropD)
  from len show "length (drop (length m - 2) m) = 2"
    by simp
  have "digits_val 0 m = n"
    by (simp add: m_def digits_val_zeros digits_val_digits_of)
  then show "digits_val 0 (take (length m - 2) m @ drop (length m - 2) m) = n"
    by (simp only: append_take_drop_id)
qed

lemma parseFloat_toFixed2_finite:
  assumes "\<bar>q\<bar> < 10 ^ 21"
  shows "parseFloat_str (toFixed2 env (Fin q)) = nearest_double (round2 q)"
proof -
  define n where "n = nat \<lfloor>\<bar>q\<bar> * 100 + 1 / 2\<rfloor>"
  define m where "m = replicate (3 - length (digits_of n)) (CHR ''0'') @ digits_of n"
  define a where "a = take (length m - 2) m"
  define b where "b = drop (length m - 2) m"
  have p: "list_all is_digit a" "a \<noteq> []" "list_all is_digit b" "length b = 2"
    "digits_val 0 (a @ b) = n"
    unfolding a_def b_def m_def by (rule padded_digits)+
  have shape: "toFixed2 env (Fin q) = (if q < 0 then ''-'' else []) @ a @ CHR ''.'' # b"
    using assms by (simp add: toFixed2_def Let_def a_def b_def m_def n_def)
  have "0 \<le> \<lfloor>\<bar>q\<bar> * 100 + 1 / 2\<rfloor>"
    by simp
  then have n: "real n = of_int \<lfloor>\<bar>q\<bar> * 100 + 1 / 2\<rfloor>"
    by (simp add: n_def)
  show ?thesis
  proof (cases "q < 0")
    case True
    then show ?thesis
      using parseFloat_str_fixed(2) [OF p(1,2,3)] p(4,5) n
      by (simp add: shape round2_def)
  next
    case False
    then show ?thesis
      using parseFloat_str_fixed(1) [OF p(1,2,3)] p(4,5) n
      by (simp add: shape round2_def)
  qed
qed

lemma parseFloat_toFixed2: "parseFloat_str (toFixed2 env x) = rounded env x"
proof (cases x)
  case NaN
  then show ?thesis
    by (simp add: toFixed2_def num_to_string_def rounded_def parse_defs)
next
  case (Fin q)
  then show ?thesis
    using parseFloat_toFixed2_finite [of q env]
    by (cases "\<bar>q\<bar> < 10 ^ 21") (simp_all add: rounded_def toFixed2_def)
next
  case PInf
  then show ?thesis
    by (simp add: toFixed2_def num_to_string_def rounded_def parse_defs)
next
  case NInf
  then show ?thesis
    by (simp add: toFixed2_def num_to_string_def rounded_def parse_defs)
qed

lemma or_zero_not_NaN [simp]: "or_zero x \<noteq> NaN"
  by (cases x) (simp_all add: or_zero_def)

lemma not_gt_zero: "x \<noteq> NaN \<Longrightarrow> (\<not> num_gt x (Fin 0)) = (x = Fin 0 \<or> num_lt x (Fin 0))"
  by (cases x) (auto simp add: num_gt_def)

lemma rounded_zero [simp]: "rounded env (Fin 0) = Fin 0"
  by (simp add: rounded_def round2_def)

text \<open>The coerced value is what the code computes by \<open>parseFloat(item.name) || 0\<close>.\<close>

lemma coerced_eq: "coerced kvs name = or_zero (parseFloat (opt_val (map_of kvs name)))"
proof (cases "map_of kvs name")
  case None
  then show ?thesis
    by (simp add: coerced_def opt_val_def or_zero_def)
next
  case (Some j)
  then show ?thesis
    by (cases "parseFloat_json j") (simp_all add: coerced_def opt_val_def or_zero_def)
qed

lemma coerced_not_NaN [simp]: "coerced kvs name \<noteq> NaN"
  by (simp add: coerced_eq)

lemma coerced_missing:
  "map_of kvs name = None \<Longrightarrow> coerced kvs name = Fin 0"
  "map_of kvs name = Some j \<Longrightarrow> parseFloat_json j = NaN \<Longrightarrow> coerced kvs name = Fin 0"
  by (simp_all add: coerced_def)

text \<open>The \<open>sla\<close> of an enriched object, before the two date fields are looked at.\<close>

lemma processItem_sla_eq:
  assumes "processItem env (JObj kvs) = Inr r"
  shows "sla r = rounded env
           (if num_gt (coerced kvs ''poValue'') (Fin 0)
            then num_mul (num_div (coerced kvs ''receivedValue'') (coerced kvs ''poValue'')) (Fin 100)
            else Fin 0)"
proof -
  from assms have "sla r = parseFloat_str (toFixed2 env
           (if num_gt (coerced kvs ''poValue'') (Fin 0)
            then num_mul (num_div (coerced kvs ''receivedValue'') (coerced kvs ''poValue'')) (Fin 100)
            else Fin 0))"
    by (auto simp add: processItem_def bind_err_def coerced_eq Let_def split: sum.splits)
  then show ?thesis
    by (simp only: parseFloat_toFixed2)
qed

text \<open>Nothing received of a positive order value is a ratio of 0.\<close>

lemma zero_ratio:
  "num_gt pv (Fin 0) \<Longrightarrow> rounded env (num_mul (num_div (Fin 0) pv) (Fin 100)) = Fin 0"
  by (cases pv) (simp_all add: num_gt_def)

text \<open>
  C6: for a raw record (an object) that enrichment accepts, \<open>sla\<close> is
  \<open>receivedValue / poValue * 100\<close> of the coerced values, in the arithmetic of doubles,
  rounded to two decimals, when the coerced \<open>poValue\<close> is above 0, and it is 0 when the
  coerced \<open>poValue\<close> is 0 or below, in particular when the field is missing or reads as
  no number. A \<open>receivedValue\<close> that is missing or reads as no number counts as 0 too.
\<close>

theorem processItem_sla:
  assumes "processItem env (JObj kvs) = Inr r"
  shows "(num_gt (coerced kvs ''poValue'') (Fin 0) \<longrightarrow>
            sla r = rounded env
              (num_mul (num_div (coerced kvs ''receivedValue'') (coerced kvs ''poValue'')) (Fin 100))) \<and>
         (coerced kvs ''poValue'' = Fin 0 \<or> num_lt (coerced kvs ''poValue'') (Fin 0) \<longrightarrow>
            sla r = Fin 0) \<and>
         (map_of kvs ''poValue'' = None \<longrightarrow> sla r = Fin 0) \<and>
         (map_of kvs ''poValue'' = Some pv \<and> parseFloat_json pv = NaN \<longrightarrow> sla r = Fin 0) \<and>
         (num_gt (coerced kvs ''poValue'') (Fin 0) \<and> map_of kvs ''receivedValue'' = None \<longrightarrow>
            sla r = Fin 0) \<and>
         (num_gt (coerced kvs ''poValue'') (Fin 0) \<and> map_of kvs ''receivedValue'' = Some rv \<and>
          parseFloat_json rv = NaN \<longrightarrow> sla r = Fin 0)"
proof -
  note eq = processItem_sla_eq [OF assms]
  have pos: "sla r = rounded env
        (num_mul (num_div (coerced kvs ''receivedValue'') (coerced kvs ''poValue'')) (Fin 100))"
    if "num_gt (coerced kvs ''poValue'') (Fin 0)"
    using eq that by simp
  have nonpos: "sla r = Fin 0"
    if "coerced kvs ''poValue'' = Fin 0 \<or> num_lt (coerced kvs ''poValue'') (Fin 0)"
  proof -
    from that have "\<not> num_gt (coerced kvs ''poValue'') (Fin 0)"
      by (simp add: not_gt_zero)
    with eq show ?thesis by simp
  qed
  have missing: "sla r = Fin 0" if "map_of kvs ''poValue'' = None"
    using nonpos coerced_missing(1) [OF that] by simp
  have unread: "sla r = Fin 0"
    if "map_of kvs ''poValue'' = Some pv \<and> parseFloat_json pv = NaN"
    using nonpos coerced_missing(2) [of kvs "''poValue''" pv] that by simp
  have none: "sla r = Fin 0"
    if "num_gt (coerced kvs ''poValue'') (Fin 0) \<and> map_of kvs ''receivedValue'' = None"
    using pos that coerced_missing(1) [of kvs "''receivedValue''"] by (simp add: zero_ratio)
  have unreadable: "sla r = Fin 0"
    if "num_gt (coerced kvs ''poValue'') (Fin 0) \<and> map_of kvs ''receivedValue'' = Some rv \<and>
        parseFloat_json rv = NaN"
    using pos that coerced_missing(2) [of kvs "''receivedValue''" rv] by (simp add: zero_ratio)
  from pos nonpos missing unread none unreadable show ?thesis
    by blast
qed

theorem processItem_sla_witness:
  "processItem jakarta item_acme = Inr rec_acme \<and>
   num_gt (Fin 100) (Fin 0) \<and>
   sla rec_acme = rounded jakarta (num_mul (num_div (Fin 80) (Fin 100)) (Fin 100)) \<and>
   sla rec_acme = Fin 80 \<and>
   map_sum id sla (processItem jakarta (JObj [(''receivedValue'', JStr ''80'')])) =
     Inr (Fin 0) \<and>
   map_sum id sla
     (processItem jakarta (JObj [(''poValue'', JStr ''n/a''), (''receivedValue'', JStr ''80'')])) =
     Inr (Fin 0) \<and>
   map_sum id sla (processItem jakarta (JObj [(''poValue'', JStr ''100'')])) = Inr (Fin 0) \<and>
   map_sum id sla
     (processItem jakarta (JObj [(''poValue'', JStr ''100''), (''receivedValue'', JNull)])) =
     Inr (Fin 0)"
proof -
  let ?kvs = "[(''nomorPO'', JStr ''PO1''), (''itemCode'', JStr ''X1''),
     (''itemName'', JStr ''Bolt''), (''supplierName'', JStr ''Acme''),
     (''contract'', JStr ''C1''), (''poDate'', JStr ''01/01/2024''), (''qtyPO'', JStr ''10''),
     (''poValue'', JStr ''100''), (''receivedDate'', JStr ''05/01/2024''),
     (''qtyReceived'', JStr ''8''), (''receivedValue'', JStr ''80'')]"
  have p: "processItem jakarta (JObj ?kvs) = Inr rec_acme"
    using processItem_acme by (simp add: item_acme_def)
  have pv: "coerced ?kvs ''poValue'' = Fin 100"
    by (simp add: coerced_def parse_defs Let_def)
  have rv: "coerced ?kvs ''receivedValue'' = Fin 80"
    by (simp add: coerced_def parse_defs Let_def)
  have gt: "num_gt (Fin 100) (Fin 0)"
    by (simp add: num_gt_def)
  from processItem_sla [OF p] pv rv gt
  have a: "sla rec_acme = rounded jakarta (num_mul (num_div (Fin 80) (Fin 100)) (Fin 100))"
    by (simp only:)
  have a': "sla rec_acme = Fin 80"
    by (simp add: rec_acme_def)
  let ?k1 = "[(''receivedValue'', JStr ''80'')]"
  let ?r1 = "\<lparr> raw = ?k1, sla = Fin 0, avgDays = Fin 0, poDateObj = None,
    receivedDateObj = None \<rparr>"
  have q: "processItem jakarta (JObj ?k1) = Inr ?r1"
    by (simp add: enrich_defs parse_defs)
  have "map_of ?k1 ''poValue'' = None"
    by simp
  with processItem_sla [OF q] have "sla ?r1 = Fin 0"
    by blast
  then have b: "map_sum id sla (processItem jakarta (JObj ?k1)) = Inr (Fin 0)"
    by (simp only: q map_sum.simps)
  let ?k2 = "[(''poValue'', JStr ''n/a''), (''receivedValue'', JStr ''80'')]"
  let ?r2 = "\<lparr> raw = ?k2, sla = Fin 0, avgDays = Fin 0, poDateObj = None,
    receivedDateObj = None \<rparr>"
  have u: "processItem jakarta (JObj ?k2) = Inr ?r2"
    by (simp add: enrich_defs parse_defs)
  have "map_of ?k2 ''poValue'' = Some (JStr ''n/a'') \<and> parseFloat_json (JStr ''n/a'') = NaN"
    by (simp add: parse_defs)
  with processItem_sla [OF u, where pv = "JStr ''n/a''"] have "sla ?r2 = Fin 0"
    by blast
  then have c: "map_sum id sla (processItem jakarta (JObj ?k2)) = Inr (Fin 0)"
    by (simp only: u map_sum.simps)
  let ?k3 = "[(''poValue'', JStr ''100'')]"
  let ?r3 = "\<lparr> raw = ?k3, sla = Fin 0, avgDays = Fin 0, poDateObj = None,
    receivedDateObj = None \<rparr>"
  have v: "processItem jakarta (JObj ?k3) = Inr ?r3"
    by (simp add: enrich_defs parse_defs)
  have "coerced ?k3 ''poValue'' = Fin 100"
    by (simp add: coerced_def parse_defs Let_def)
  with gt have "num_gt (coerced ?k3 ''poValue'') (Fin 0) \<and> map_of ?k3 ''receivedValue'' = None"
    by simp
  with processItem_sla [OF v] have "sla ?r3 = Fin 0"
    by blast
  then have d: "map_sum id sla (processItem jakarta (JObj ?k3)) = Inr (Fin 0)"
    by (simp only: v map_sum.simps)
  let ?k4 = "[(''poValue'', JStr ''100''), (''receivedValue'', JNull)]"
  let ?r4 = "\<lparr> raw = ?k4, sla = Fin 0, avgDays = Fin 0, poDateObj = None,
    receivedDateObj = None \<rparr>"
  have w: "processItem jakarta (JObj ?k4) = Inr ?r4"
    by (simp add: enrich_defs parse_defs)
  have "coerced ?k4 ''poValue'' = Fin 100"
    by (simp add: coerced_def parse_defs Let_def)
  with gt have "num_gt (coerced ?k4 ''poValue'') (Fin 0) \<and>
      map_of ?k4 ''receivedValue'' = Some JNull \<and> parseFloat_json JNull = NaN"
    by simp
  with processItem_sla [OF w, where rv = JNull] have "sla ?r4 = Fin 0"
    by blast
  then have e: "map_sum id sla (processItem jakarta (JObj ?k4)) = Inr (Fin 0)"
    by (simp only: w map_sum.simps)
  from processItem_acme gt a a' b c d e show ?thesis
    by (intro conjI)
qed

text \<open>
  The ratio is computed in doubles: for a \<open>poValue\<close> of 160 and a \<open>receivedValue\<close> of 23
  the exact ratio is \<open>14.375\<close>, the quotient \<open>23 / 160\<close> rounds and its product with 100
  is the double just below \<open>14.375\<close>, so that \<open>sla\<close> is the double of \<open>14.37\<close>.
\<close>

lemma processItem_sla_inexact:
  "processItem env (JObj [(''poValue'', JNum 160), (''receivedValue'', JNum 23)]) =
     Inr \<lparr> raw = [(''poValue'', JNum 160), (''receivedValue'', JNum 23)],
           sla = Fin (8089590830664253 / 2 ^ 49), avgDays = Fin 0,
           poDateObj = None, receivedDateObj = None \<rparr>"
  "num_mul (num_div (Fin 23) (Fin 160)) (Fin 100) = Fin (8092405580431359 / 2 ^ 49)"
  "nearest_double (1437 / 100) = Fin (8089590830664253 / 2 ^ 49)"
  "nearest_double (1438 / 100) = Fin (8095220330198467 / 2 ^ 49)"
  by (simp_all add: enrich_defs parse_defs)

text \<open>Text that overflows reads as an infinity, text that underflows as 0.\<close>

lemma parseFloat_str_range:
  "parseFloat_str ''1e400'' = PInf"
  "parseFloat_str ''-1e400'' = NInf"
  "parseFloat_str ''1e-400'' = Fin 0"
  by (simp_all add: parse_defs Let_def)

subsection \<open>Sorting\<close>

lemma mset_insert_by: "mset (insert_by cmp x ys) = add_mset x (mset ys)"
  by (induction ys) simp_all

lemma mset_sort_by: "mset (sort_by cmp xs) = mset xs"
  by (induction xs) (simp_all add: sort_by_def mset_insert_by)

lemma set_sort_by: "set (sort_by cmp xs) = set xs"
  using mset_sort_by [of cmp xs] by (metis set_mset_mset)

lemma sort_by_Cons: "sort_by cmp (x # xs) = insert_by cmp x (sort_by cmp xs)"
  by (simp add: sort_by_def)

text \<open>An element that the comparator puts after every element of a list goes last.\<close>

lemma insert_by_last:
  "\<forall>y \<in> set ys. 0 < cmp x y \<Longrightarrow> insert_by cmp x ys = ys @ [x]"
  by (induction ys) simp_all

lemma sort_by_reverses:
  "sorted_wrt (\<lambda>a b. 0 < cmp a b) xs \<Longrightarrow> sort_by cmp xs = rev xs"
proof (induction xs)
  case Nil
  show ?case by (simp add: sort_by_def)
next
  case (Cons x xs)
  then have "sort_by cmp xs = rev xs" and "\<forall>y \<in> set (rev xs). 0 < cmp x y"
    by simp_all
  then show ?case
    by (simp add: sort_by_Cons insert_by_last)
qed

text \<open>A comparator that agrees with the order of a key sorts as the key does.\<close>

lemma insert_by_key:
  fixes k :: "'a \<Rightarrow> 'b::linorder"
  shows "\<forall>y \<in> set ys. (cmp x y \<le> 0) = (k x \<le> k y) \<Longrightarrow>
         insert_by cmp x ys = insort_key k x ys"
  by (induction ys) simp_all

lemma sort_by_key:
  fixes k :: "'a \<Rightarrow> 'b::linorder"
  assumes "\<forall>a \<in> set xs. \<forall>b \<in> set xs. (cmp a b \<le> 0) = (k a \<le> k b)"
  shows "sort_by cmp xs = sort_key k xs"
  using assms
proof (induction xs)
  case Nil
  show ?case by (simp add: sort_by_def)
next
  case (Cons x xs)
  then have "sort_by cmp xs = sort_key k xs"
    by simp
  moreover from Cons.prems have "\<forall>y \<in> set (sort_key k xs). (cmp x y \<le> 0) = (k x \<le> k y)"
    by simp
  ultimately show ?case
    by (simp add: sort_by_Cons insert_by_key)
qed

text \<open>
  The result of \<open>sort_by\<close> under a comparator that agrees with a key is the one
  arrangement that is ordered by the key and keeps records of equal key in their order.
\<close>

lemma sort_by_unique:
  fixes k :: "'a \<Rightarrow> 'b::linorder"
  assumes "\<forall>a \<in> set xs. \<forall>b \<in> set xs. (cmp a b \<le> 0) = (k a \<le> k b)"
    and "mset ys = mset xs"
    and "sorted (map k ys)"
    and "\<And>x. x \<in> set ys \<Longrightarrow> filter (\<lambda>y. k x = k y) ys = filter (\<lambda>y. k x = k y) xs"
  shows "ys = sort_by cmp xs"
  using properties_for_sort_key [OF assms(2) assms(4) assms(3)] sort_by_key [OF assms(1)]
  by simp

text \<open>Flipping the direction negates the comparator.\<close>

lemma compareRecords_flip:
  "compareRecords env column (if d = Asc then Desc else Asc) a b = - compareRecords env column d a b"
  by (cases d) (simp_all add: compareRecords_def Let_def)

lemma sortTable_fields:
  "sortColumn (sortTable env column s) = Some column"
  "sortDirection (sortTable env column s) =
     (if sortColumn s = Some column then (if sortDirection s = Asc then Desc else Asc) else Asc)"
  "filteredData (sortTable env column s) =
     sort_by (compareRecords env column (sortDirection (sortTable env column s))) (filteredData s)"
  "data (sortTable env column s) = data s"
  by (simp_all add: sortTable_def Let_def)

subsection \<open>Date columns\<close>

lemma js_lt_valid_dates [simp]:
  "js_lt env (VDate (ValidDate a)) (VDate (ValidDate b)) = (a < b)"
  by (simp add: js_lt_def)

lemma sort_value_date:
  assumes "column = ''poDate'' \<or> column = ''receivedDate''"
    and "date_of column r \<noteq> Some InvalidDate"
  shows "sort_value env column r = VDate (ValidDate (date_key column r))"
proof -
  from assms(1) have "sort_value env column r =
      (case date_of column r of None \<Rightarrow> VDate (ValidDate 0) | Some d \<Rightarrow> VDate d)"
    by (auto simp add: sort_value_def get_column_def date_of_def numeric_columns_def Let_def
          split: option.splits)
  with assms(2) show ?thesis
    by (auto simp add: date_key_def split: option.splits jsdate.splits)
qed

lemma compareRecords_date:
  assumes "column = ''poDate'' \<or> column = ''receivedDate''"
    and "date_of column a \<noteq> Some InvalidDate" and "date_of column b \<noteq> Some InvalidDate"
  shows "(compareRecords env column Asc a b \<le> 0) = (date_key column a \<le> date_key column b)"
    and "(compareRecords env column Desc a b \<le> 0) = (- date_key column a \<le> - date_key column b)"
  using assms by (auto simp add: compareRecords_def sort_value_date js_gt_def)

lemma sortTable_date_sorted:
  assumes "column = ''poDate'' \<or> column = ''receivedDate''"
    and "\<forall>r \<in> set (filteredData s). date_of column r \<noteq> Some InvalidDate"
  shows "filteredData (sortTable env column s) =
           (if sortDirection (sortTable env column s) = Asc
            then sort_key (date_key column) (filteredData s)
            else sort_key (\<lambda>r. - date_key column r) (filteredData s))"
proof (cases "sortDirection (sortTable env column s)")
  case Asc
  with assms show ?thesis
    by (simp add: sortTable_fields(3) sort_by_key [where k = "date_key column"]
          compareRecords_date(1))
next
  case Desc
  with assms show ?thesis
    by (simp add: sortTable_fields(3) sort_by_key [where k = "\<lambda>r. - date_key column r"]
          compareRecords_date(2))
qed

lemma sorted_map_nth:
  fixes k :: "'a \<Rightarrow> int"
  shows "sorted (map k xs) \<Longrightarrow> i < j \<Longrightarrow> j < length xs \<Longrightarrow> k (xs ! i) \<le> k (xs ! j)"
  by (simp add: sorted_iff_nth_mono)

lemma sortTable_date_nth:
  assumes col: "column = ''poDate'' \<or> column = ''receivedDate''"
    and valid: "\<forall>r \<in> set (filteredData s). date_of column r \<noteq> Some InvalidDate"
    and ij: "i < j" "j < length (filteredData (sortTable env column s))"
  shows "if sortDirection (sortTable env column s) = Asc
         then date_key column (filteredData (sortTable env column s) ! i)
                \<le> date_key column (filteredData (sortTable env column s) ! j)
         else date_key column (filteredData (sortTable env column s) ! j)
                \<le> date_key column (filteredData (sortTable env column s) ! i)"
proof (cases "sortDirection (sortTable env column s)")
  case Asc
  then have out: "filteredData (sortTable env column s) = sort_key (date_key column) (filteredData s)"
    using sortTable_date_sorted [OF col valid] by simp
  have "sorted (map (date_key column) (sort_key (date_key column) (filteredData s)))"
    by simp
  with ij out Asc show ?thesis
    using sorted_map_nth [of "date_key column" "sort_key (date_key column) (filteredData s)" i j]
    by simp
next
  case Desc
  then have out: "filteredData (sortTable env column s) =
      sort_key (\<lambda>r. - date_key column r) (filteredData s)"
    using sortTable_date_sorted [OF col valid] by simp
  have "sorted (map (\<lambda>r. - date_key column r) (sort_key (\<lambda>r. - date_key column r) (filteredData s)))"
    by simp
  with ij out Desc show ?thesis
    using sorted_map_nth [of "\<lambda>r. - date_key column r"
        "sort_key (\<lambda>r. - date_key column r) (filteredData s)" i j]
    by simp
qed

lemma filter_err_all: "\<forall>x \<in> set xs. p x = Inr True \<Longrightarrow> filter_err p xs = Inr xs"
  by (induction xs) (simp_all add: bind_err_def)

lemma filterItem_noFilters: "filterItem env noFilters [] [] [] item = Inr True"
  by (simp add: filter_defs)

lemma applyFilters_noFilters:
  "toLowerCase env [] = [] \<Longrightarrow> applyFilters env noFilters s = Inr (s\<lparr>filteredData := data s\<rparr>)"
proof -
  assume lower: "toLowerCase env [] = []"
  have needles: "supplierSearch noFilters = []" "contractSearch noFilters = []"
    "itemCodeSearch noFilters = []"
    by (simp_all add: noFilters_def)
  show ?thesis
    by (simp add: applyFilters_def Let_def needles lower filterItem_noFilters filter_err_all
          bind_err_def)
qed

lemma toLowerCase_jakarta_empty: "toLowerCase jakarta [] = []"
  by (simp add: jakarta_def)

text \<open>
  C4, as stated, fails: a record without a date compares as \<open>new Date(0)\<close>, the epoch,
  which is not the earliest date. Sorted by \<open>poDate\<close> in ascending order, the record
  dated 1 January 1960 comes before the record without a date.
\<close>

theorem sortTable_missing_date_counterexample:
  "loadData jakarta noFilters (JArr [item_undated, item_old]) initial =
     Inr (initial\<lparr>data := [rec_undated, rec_old], filteredData := [rec_undated, rec_old]\<rparr>) \<and>
   poDateObj rec_undated = None \<and>
   poDateObj rec_old = Some (ValidDate (- 315644400000)) \<and>
   sortDirection (sortTable jakarta ''poDate''
     (initial\<lparr>data := [rec_undated, rec_old], filteredData := [rec_undated, rec_old]\<rparr>)) = Asc \<and>
   filteredData (sortTable jakarta ''poDate''
     (initial\<lparr>data := [rec_undated, rec_old], filteredData := [rec_undated, rec_old]\<rparr>))
     = [rec_old, rec_undated]"
proof -
  have l: "loadData jakarta noFilters (JArr [item_undated, item_old]) initial =
     Inr (initial\<lparr>data := [rec_undated, rec_old], filteredData := [rec_undated, rec_old]\<rparr>)"
    by (simp add: loadData_def ingest_def processData_def processItem_undated processItem_old
          applyFilters_noFilters toLowerCase_jakarta_empty bind_err_def)
  have k: "sort_value jakarta ''poDate'' rec_undated = VDate (ValidDate 0)"
    "sort_value jakarta ''poDate'' rec_old = VDate (ValidDate (- 315644400000))"
    by (simp_all add: sort_value_def get_column_def numeric_columns_def rec_undated_def rec_old_def)
  have c: "compareRecords jakarta ''poDate'' Asc rec_undated rec_old = 1"
    by (simp add: compareRecords_def k js_gt_def)
  have "filteredData (sortTable jakarta ''poDate''
     (initial\<lparr>data := [rec_undated, rec_old], filteredData := [rec_undated, rec_old]\<rparr>))
     = [rec_old, rec_undated]"
    by (simp add: sortTable_def initial_def sort_by_def c)
  moreover have "sortDirection (sortTable jakarta ''poDate''
     (initial\<lparr>data := [rec_undated, rec_old], filteredData := [rec_undated, rec_old]\<rparr>)) = Asc"
    by (simp add: sortTable_def initial_def)
  ultimately show ?thesis
    using l by (simp add: rec_undated_def rec_old_def)
qed

text \<open>
  C4, amended: on a date column a record whose date object is \<open>null\<close> compares with the
  time value 0 of \<open>new Date(0)\<close>. When no record of the view holds an invalid date
  in that column, the sorted view is a rearrangement of the view ordered by that time
  value, ascending or descending with the direction; so in ascending order a record
  without a date comes before every record dated after the epoch and after every
  record dated before it, and the other way round in descending order.
\<close>

theorem sortTable_date_column:
  assumes col: "column = ''poDate'' \<or> column = ''receivedDate''"
    and valid: "\<forall>r \<in> set (filteredData s). date_of column r \<noteq> Some InvalidDate"
  shows "mset (filteredData (sortTable env column s)) = mset (filteredData s) \<and>
    (\<forall>i j. i < j \<and> j < length (filteredData (sortTable env column s)) \<longrightarrow>
       (if sortDirection (sortTable env column s) = Asc
        then date_key column (filteredData (sortTable env column s) ! i)
               \<le> date_key column (filteredData (sortTable env column s) ! j)
        else date_key column (filteredData (sortTable env column s) ! j)
               \<le> date_key column (filteredData (sortTable env column s) ! i))) \<and>
    (\<forall>i j t. i < length (filteredData (sortTable env column s)) \<and>
             j < length (filteredData (sortTable env column s)) \<and>
             date_of column (filteredData (sortTable env column s) ! i) = None \<and>
             date_of column (filteredData (sortTable env column s) ! j) = Some (ValidDate t) \<longrightarrow>
       (if sortDirection (sortTable env column s) = Asc
        then (0 < t \<longrightarrow> i < j) \<and> (t < 0 \<longrightarrow> j < i)
        else (0 < t \<longrightarrow> j < i) \<and> (t < 0 \<longrightarrow> i < j)))"
proof (intro conjI allI impI)
  show "mset (filteredData (sortTable env column s)) = mset (filteredData s)"
    by (simp add: sortTable_fields(3) mset_sort_by)
next
  fix i j
  assume "i < j \<and> j < length (filteredData (sortTable env column s))"
  then show "if sortDirection (sortTable env column s) = Asc
        then date_key column (filteredData (sortTable env column s) ! i)
               \<le> date_key column (filteredData (sortTable env column s) ! j)
        else date_key column (filteredData (sortTable env column s) ! j)
               \<le> date_key column (filteredData (sortTable env column s) ! i)"
    using sortTable_date_nth [OF col valid] by blast
next
  fix i j t
  let ?out = "filteredData (sortTable env column s)"
  assume h: "i < length ?out \<and> j < length ?out \<and>
             date_of column (?out ! i) = None \<and> date_of column (?out ! j) = Some (ValidDate t)"
  then have ki: "date_key column (?out ! i) = 0" and kj: "date_key column (?out ! j) = t"
    by (simp_all add: date_key_def)
  from h have ne: "i \<noteq> j" by auto
  have up: "i < j \<Longrightarrow> (if sortDirection (sortTable env column s) = Asc then 0 \<le> t else t \<le> 0)"
    using sortTable_date_nth [OF col valid, of i j env] h ki kj by (simp split: if_splits)
  have down: "j < i \<Longrightarrow> (if sortDirection (sortTable env column s) = Asc then t \<le> 0 else 0 \<le> t)"
    using sortTable_date_nth [OF col valid, of j i env] h ki kj by (simp split: if_splits)
  show "if sortDirection (sortTable env column s) = Asc
        then (0 < t \<longrightarrow> i < j) \<and> (t < 0 \<longrightarrow> j < i)
        else (0 < t \<longrightarrow> j < i) \<and> (t < 0 \<longrightarrow> i < j)"
  proof (cases "i < j")
    case True
    with up show ?thesis by (auto split: if_splits)
  next
    case False
    with ne have "j < i" by simp
    with down show ?thesis by (auto split: if_splits)
  qed
qed

theorem sortTable_date_column_witness:
  "map (date_of ''poDate'') (filteredData loaded) =
     [Some (ValidDate 1704042000000), Some (ValidDate (- 315644400000)), None] \<and>
   filteredData (sortTable jakarta ''poDate'' loaded) = [rec_old, rec_undated, rec_acme] \<and>
   sortDirection (sortTable jakarta ''poDate'' loaded) = Asc \<and>
   mset (filteredData (sortTable jakarta ''poDate'' loaded)) = mset (filteredData loaded) \<and>
   date_key ''poDate'' (filteredData (sortTable jakarta ''poDate'' loaded) ! 0)
     \<le> date_key ''poDate'' (filteredData (sortTable jakarta ''poDate'' loaded) ! 1) \<and>
   date_key ''poDate'' (filteredData (sortTable jakarta ''poDate'' loaded) ! 1)
     \<le> date_key ''poDate'' (filteredData (sortTable jakarta ''poDate'' loaded) ! 2)"
proof -
  have col: "''poDate'' = ''poDate'' \<or> ''poDate'' = ''receivedDate''"
    by simp
  have valid: "\<forall>r \<in> set (filteredData loaded). date_of ''poDate'' r \<noteq> Some InvalidDate"
    by (simp add: loaded_def date_of_def rec_acme_def rec_old_def rec_undated_def)
  have k: "sort_value jakarta ''poDate'' rec_undated = VDate (ValidDate 0)"
    "sort_value jakarta ''poDate'' rec_old = VDate (ValidDate (- 315644400000))"
    "sort_value jakarta ''poDate'' rec_acme = VDate (ValidDate 1704042000000)"
    by (simp_all add: sort_value_def get_column_def numeric_columns_def rec_undated_def
          rec_old_def rec_acme_def)
  have out: "filteredData (sortTable jakarta ''poDate'' loaded) = [rec_old, rec_undated, rec_acme]"
    by (simp add: sortTable_def loaded_def sort_by_def compareRecords_def k js_gt_def)
  have dir: "sortDirection (sortTable jakarta ''poDate'' loaded) = Asc"
    by (simp add: sortTable_def loaded_def)
  note t = sortTable_date_column [OF col valid, of jakarta]
  have len: "length (filteredData (sortTable jakarta ''poDate'' loaded)) = 3"
    by (simp add: out)
  from t have m: "mset (filteredData (sortTable jakarta ''poDate'' loaded)) = mset (filteredData loaded)"
    by blast
  from t have nth: "i < j \<and> j < length (filteredData (sortTable jakarta ''poDate'' loaded)) \<Longrightarrow>
      date_key ''poDate'' (filteredData (sortTable jakarta ''poDate'' loaded) ! i)
        \<le> date_key ''poDate'' (filteredData (sortTable jakarta ''poDate'' loaded) ! j)" for i j
    using dir by (metis (full_types))
  have a: "date_key ''poDate'' (filteredData (sortTable jakarta ''poDate'' loaded) ! 0)
     \<le> date_key ''poDate'' (filteredData (sortTable jakarta ''poDate'' loaded) ! 1)"
    using nth [of 0 1] len by simp
  have b: "date_key ''poDate'' (filteredData (sortTable jakarta ''poDate'' loaded) ! 1)
     \<le> date_key ''poDate'' (filteredData (sortTable jakarta ''poDate'' loaded) ! 2)"
    using nth [of 1 2] len by simp
  have dates: "map (date_of ''poDate'') (filteredData loaded) =
     [Some (ValidDate 1704042000000), Some (ValidDate (- 315644400000)), None]"
    by (simp add: loaded_def date_of_def rec_acme_def rec_old_def rec_undated_def)
  from dates out dir m a b show ?thesis
    by blast
qed

text \<open>Sorting a view that is strictly ordered one way, in the other direction.\<close>

lemma sort_by_flipped:
  assumes "sorted_wrt (\<lambda>a b. compareRecords env column d a b < 0) xs"
  shows "sort_by (compareRecords env column (if d = Asc then Desc else Asc)) xs = rev xs"
proof -
  from assms have "sorted_wrt
      (\<lambda>a b. 0 < compareRecords env column (if d = Asc then Desc else Asc) a b) xs"
    by (simp only: compareRecords_flip) (simp add: sorted_wrt_mono_rel [OF _ assms])
  then show ?thesis
    by (rule sort_by_reverses)
qed

text \<open>Insertion keeps a list ordered when the comparator is transitive and total.\<close>

lemma set_insert_by: "set (insert_by cmp x ys) = insert x (set ys)"
  by (induction ys) auto

lemma sorted_wrt_insert_by:
  assumes trans: "\<And>a b c. cmp a b \<le> 0 \<Longrightarrow> cmp b c \<le> 0 \<Longrightarrow> cmp a c \<le> (0::int)"
    and total: "\<And>a b. cmp a b \<le> 0 \<or> cmp b a \<le> 0"
  shows "sorted_wrt (\<lambda>a b. cmp a b \<le> 0) ys \<Longrightarrow>
         sorted_wrt (\<lambda>a b. cmp a b \<le> 0) (insert_by cmp x ys)"
proof (induction ys)
  case Nil
  show ?case by simp
next
  case (Cons y ys)
  show ?case
  proof (cases "cmp x y \<le> 0")
    case True
    with Cons.prems trans show ?thesis
      by auto
  next
    case False
    with total have "cmp y x \<le> 0"
      by blast
    with False Cons show ?thesis
      by (auto simp add: set_insert_by)
  qed
qed

lemma sorted_wrt_sort_by:
  assumes "\<And>a b c. cmp a b \<le> 0 \<Longrightarrow> cmp b c \<le> 0 \<Longrightarrow> cmp a c \<le> (0::int)"
    and "\<And>a b. cmp a b \<le> 0 \<or> cmp b a \<le> 0"
  shows "sorted_wrt (\<lambda>a b. cmp a b \<le> 0) (sort_by cmp xs)"
proof (induction xs)
  case Nil
  show ?case by (simp add: sort_by_def)
next
  case (Cons x xs)
  then show ?case
    by (simp add: sort_by_Cons sorted_wrt_insert_by [OF assms])
qed

lemma sorted_wrt_distinct_keys:
  assumes "sorted_wrt P xs" and "distinct (map k xs)"
    and "\<And>a b. P a b \<Longrightarrow> k a \<noteq> k b \<Longrightarrow> Q a b"
  shows "sorted_wrt Q xs"
  using assms(1,2)
proof (induction xs)
  case Nil
  show ?case by simp
next
  case (Cons x xs)
  then show ?case
    using assms(3) by (auto simp add: image_iff)
qed

subsection \<open>Numeric columns\<close>

lemma num_lt_trichotomy:
  "a \<noteq> NaN \<Longrightarrow> b \<noteq> NaN \<Longrightarrow> num_lt a b \<or> a = b \<or> num_lt b a"
  by (cases a; cases b) auto

lemma num_lt_asym: "num_lt a b \<Longrightarrow> \<not> num_lt b a"
  by (cases a; cases b) auto

lemma num_lt_trans: "num_lt a b \<Longrightarrow> num_lt b c \<Longrightarrow> num_lt a c"
  by (cases a; cases b; cases c) auto

lemma num_not_lt_trans:
  "b \<noteq> NaN \<Longrightarrow> \<not> num_lt b a \<Longrightarrow> \<not> num_lt c b \<Longrightarrow> \<not> num_lt c a"
  by (cases a; cases b; cases c) auto

lemma num_key_eq: "num_key column r = or_zero (parseFloat (get_column r column))"
  by (cases "parseFloat (get_column r column)") (simp_all add: num_key_def or_zero_def)

lemma sort_value_numeric:
  "column \<in> set numeric_columns \<Longrightarrow> sort_value env column r = VNum (num_key column r)"
  by (auto simp add: sort_value_def numeric_columns_def num_key_eq Let_def)

lemma num_key_not_NaN [simp]: "num_key column r \<noteq> NaN"
  by (simp add: num_key_eq)

lemma js_lt_nums [simp]: "js_lt env (VNum a) (VNum b) = num_lt a b"
  by (simp add: js_lt_def)

lemma compareRecords_numeric:
  assumes "column \<in> set numeric_columns"
  shows "(compareRecords env column Asc a b \<le> 0) = (\<not> num_lt (num_key column b) (num_key column a))"
    and "(compareRecords env column Desc a b \<le> 0) = (\<not> num_lt (num_key column a) (num_key column b))"
    and "(compareRecords env column d a b = 0) = (num_key column a = num_key column b)"
proof -
  note sv = sort_value_numeric [OF assms]
  show "(compareRecords env column Asc a b \<le> 0) = (\<not> num_lt (num_key column b) (num_key column a))"
    using num_lt_asym [of "num_key column a" "num_key column b"]
    by (auto simp add: compareRecords_def sv js_gt_def)
  show "(compareRecords env column Desc a b \<le> 0) = (\<not> num_lt (num_key column a) (num_key column b))"
    by (auto simp add: compareRecords_def sv js_gt_def)
  show "(compareRecords env column d a b = 0) = (num_key column a = num_key column b)"
    using num_lt_trichotomy [of "num_key column a" "num_key column b"]
      num_lt_asym [of "num_key column a" "num_key column a"]
    by (cases d) (auto simp add: compareRecords_def sv js_gt_def)
qed

lemma sort_by_numeric_sorted:
  assumes "column \<in> set numeric_columns"
  shows "sorted_wrt (\<lambda>a b. compareRecords env column d a b \<le> 0)
           (sort_by (compareRecords env column d) xs)"
proof (rule sorted_wrt_sort_by)
  fix a b c
  assume "compareRecords env column d a b \<le> 0" and "compareRecords env column d b c \<le> 0"
  then show "compareRecords env column d a c \<le> 0"
    using num_not_lt_trans [of "num_key column b" "num_key column a" "num_key column c"]
      num_not_lt_trans [of "num_key column b" "num_key column c" "num_key column a"]
    by (cases d) (simp_all add: compareRecords_numeric [OF assms])
next
  fix a b
  show "compareRecords env column d a b \<le> 0 \<or> compareRecords env column d b a \<le> 0"
    using num_lt_asym [of "num_key column a" "num_key column b"]
    by (cases d) (auto simp add: compareRecords_numeric [OF assms])
qed

text \<open>
  Two sorts in a row on a numeric column whose keys are all different: the second gives
  the reverse of the first.
\<close>

lemma sortTable_twice_numeric:
  assumes col: "column \<in> set numeric_columns"
    and keys: "distinct (map (num_key column) (filteredData s))"
  shows "filteredData (sortTable env column (sortTable env column s)) =
           rev (filteredData (sortTable env column s))"
proof -
  let ?s1 = "sortTable env column s"
  let ?d = "sortDirection ?s1"
  have once: "filteredData ?s1 = sort_by (compareRecords env column ?d) (filteredData s)"
    by (rule sortTable_fields(3))
  have "mset (map (num_key column) (filteredData ?s1)) = mset (map (num_key column) (filteredData s))"
    by (simp add: once mset_sort_by)
  with keys have d1: "distinct (map (num_key column) (filteredData ?s1))"
    by (metis distinct_count_atmost_1 set_mset_mset)
  have "sorted_wrt (\<lambda>a b. compareRecords env column ?d a b \<le> 0) (filteredData ?s1)"
    unfolding once by (rule sort_by_numeric_sorted [OF col])
  then have strict: "sorted_wrt (\<lambda>a b. compareRecords env column ?d a b < 0) (filteredData ?s1)"
  proof (rule sorted_wrt_distinct_keys [OF _ d1])
    fix a b
    assume "compareRecords env column ?d a b \<le> 0" and "num_key column a \<noteq> num_key column b"
    then show "compareRecords env column ?d a b < 0"
      using compareRecords_numeric(3) [OF col, of env ?d a b] by simp
  qed
  have "filteredData (sortTable env column ?s1) =
      sort_by (compareRecords env column (if ?d = Asc then Desc else Asc)) (filteredData ?s1)"
    by (simp add: sortTable_fields)
  with strict show ?thesis
    by (simp add: sort_by_flipped)
qed

lemma sla_sort_values:
  "sort_value jakarta ''sla'' rec_acme = VNum (Fin 80)"
  "sort_value jakarta ''sla'' rec_old = VNum (Fin 160)"
  "sort_value jakarta ''sla'' rec_undated = VNum (Fin 40)"
  by (simp_all add: sort_value_def get_column_def numeric_columns_def or_zero_def rec_acme_def
        rec_old_def rec_undated_def)

lemma sla_compare:
  "compareRecords jakarta ''sla'' d a b =
     (if js_lt jakarta (sort_value jakarta ''sla'' a) (sort_value jakarta ''sla'' b)
      then (if d = Asc then - 1 else 1)
      else if js_lt jakarta (sort_value jakarta ''sla'' b) (sort_value jakarta ''sla'' a)
      then (if d = Asc then 1 else - 1) else 0)"
  by (simp add: compareRecords_def js_gt_def Let_def)

lemma loadData_sample: "loadData jakarta noFilters sample_payload initial = Inr loaded"
proof -
  have "ingest sample_payload = Inr sample_payload"
    by (simp add: ingest_def sample_payload_def bind_err_def)
  then show ?thesis
    by (simp add: loadData_def processData_sample applyFilters_noFilters
          toLowerCase_jakarta_empty bind_err_def loaded_def initial_def)
qed

lemma sorted_by_sla:
  "sortTable jakarta ''sla'' loaded =
     \<lparr> data = [rec_acme, rec_old, rec_undated],
       filteredData = [rec_undated, rec_acme, rec_old],
       sortColumn = Some ''sla'', sortDirection = Asc \<rparr>"
  by (simp add: sortTable_def loaded_def sort_by_def sla_compare sla_sort_values)

text \<open>
  C8, as stated, fails: \<open>applyFilters\<close> rebuilds the view in the order of \<open>this.data\<close>
  and leaves \<open>sortColumn\<close> and \<open>sortDirection\<close> as they are. After a sort by \<open>sla\<close>
  and a change of filter, \<open>sla\<close> still is the current sort column, no two keys are
  equal, and a sort by \<open>sla\<close> does not reverse the view.
\<close>

theorem sortTable_refiltered_counterexample:
  "loadData jakarta noFilters sample_payload initial = Inr loaded \<and>
   applyFilters jakarta noFilters (sortTable jakarta ''sla'' loaded) = Inr refiltered \<and>
   sortColumn refiltered = Some ''sla'' \<and>
   map sla (filteredData refiltered) = [Fin 80, Fin 160, Fin 40] \<and>
   filteredData (sortTable jakarta ''sla'' refiltered) = [rec_old, rec_acme, rec_undated] \<and>
   rev (filteredData refiltered) = [rec_undated, rec_old, rec_acme] \<and>
   filteredData (sortTable jakarta ''sla'' refiltered) \<noteq> rev (filteredData refiltered)"
proof -
  have a: "applyFilters jakarta noFilters (sortTable jakarta ''sla'' loaded) = Inr refiltered"
    by (simp add: sorted_by_sla applyFilters_noFilters toLowerCase_jakarta_empty refiltered_def)
  have b: "map sla (filteredData refiltered) = [Fin 80, Fin 160, Fin 40]"
    by (simp add: refiltered_def rec_acme_def rec_old_def rec_undated_def)
  have c: "filteredData (sortTable jakarta ''sla'' refiltered) = [rec_old, rec_acme, rec_undated]"
    by (simp add: sortTable_def refiltered_def sort_by_def sla_compare sla_sort_values)
  have d: "rev (filteredData refiltered) = [rec_undated, rec_old, rec_acme]"
    by (simp add: refiltered_def)
  have "rec_old \<noteq> rec_undated"
    by (simp add: rec_old_def rec_undated_def)
  with c d have e: "filteredData (sortTable jakarta ''sla'' refiltered) \<noteq> rev (filteredData refiltered)"
    by simp
  from loadData_sample a b c d e show ?thesis
    by (simp add: refiltered_def)
qed

text \<open>
  C8, amended: a sort on the current sort column flips the direction, and, when the
  view is strictly ordered by that column in the current direction, its result is the
  exact reverse of the view; on a numeric column whose keys in the view are all
  different, a second sort right after a first gives the reverse of what the first
  gave; a sort on another column sets the direction to ascending.
\<close>

theorem sortTable_toggle:
  "(sortColumn s = Some column \<longrightarrow>
      sortColumn (sortTable env column s) = Some column \<and>
      sortDirection (sortTable env column s) = (if sortDirection s = Asc then Desc else Asc)) \<and>
   (sortColumn s = Some column \<and>
    sorted_wrt (\<lambda>a b. compareRecords env column (sortDirection s) a b < 0) (filteredData s) \<longrightarrow>
      filteredData (sortTable env column s) = rev (filteredData s)) \<and>
   (column \<in> set numeric_columns \<and> distinct (map (num_key column) (filteredData s)) \<longrightarrow>
      filteredData (sortTable env column (sortTable env column s)) =
        rev (filteredData (sortTable env column s))) \<and>
   (sortColumn s \<noteq> Some column \<longrightarrow>
      sortColumn (sortTable env column s) = Some column \<and>
      sortDirection (sortTable env column s) = Asc)"
proof (intro conjI impI)
  assume "sortColumn s = Some column \<and>
    sorted_wrt (\<lambda>a b. compareRecords env column (sortDirection s) a b < 0) (filteredData s)"
  then show "filteredData (sortTable env column s) = rev (filteredData s)"
    using sort_by_flipped [of env column "sortDirection s" "filteredData s"]
    by (simp add: sortTable_fields)
next
  assume "column \<in> set numeric_columns \<and> distinct (map (num_key column) (filteredData s))"
  then show "filteredData (sortTable env column (sortTable env column s)) =
      rev (filteredData (sortTable env column s))"
    using sortTable_twice_numeric [of column s env] by blast
qed (simp_all add: sortTable_fields)

theorem sortTable_toggle_witness:
  "sortColumn (sortTable jakarta ''sla'' loaded) = Some ''sla'' \<and>
   sorted_wrt (\<lambda>a b. compareRecords jakarta ''sla'' (sortDirection (sortTable jakarta ''sla'' loaded)) a b < 0)
     (filteredData (sortTable jakarta ''sla'' loaded)) \<and>
   filteredData (sortTable jakarta ''sla'' loaded) = [rec_undated, rec_acme, rec_old] \<and>
   filteredData (sortTable jakarta ''sla'' (sortTable jakarta ''sla'' loaded)) =
     [rec_old, rec_acme, rec_undated] \<and>
   sortDirection (sortTable jakarta ''sla'' (sortTable jakarta ''sla'' loaded)) = Desc \<and>
   ''sla'' \<in> set numeric_columns \<and>
   map (num_key ''sla'') (filteredData loaded) = [Fin 80, Fin 160, Fin 40] \<and>
   filteredData (sortTable jakarta ''sla'' (sortTable jakarta ''sla'' loaded)) =
     rev (filteredData (sortTable jakarta ''sla'' loaded)) \<and>
   sortColumn loaded \<noteq> Some ''poDate'' \<and>
   sortDirection (sortTable jakarta ''poDate'' loaded) = Asc"
proof -
  let ?s = "sortTable jakarta ''sla'' loaded"
  have col: "sortColumn ?s = Some ''sla''"
    by (simp add: sorted_by_sla)
  have ordered: "sorted_wrt (\<lambda>a b. compareRecords jakarta ''sla'' (sortDirection ?s) a b < 0)
     (filteredData ?s)"
    by (simp add: sorted_by_sla sla_compare sla_sort_values)
  have view: "filteredData ?s = [rec_undated, rec_acme, rec_old]"
    by (simp add: sorted_by_sla)
  have dir: "sortDirection ?s = Asc"
    by (simp add: sorted_by_sla)
  note t = sortTable_toggle [where s = "?s" and column = "''sla''" and env = jakarta]
  from t col ordered have "filteredData (sortTable jakarta ''sla'' ?s) = rev (filteredData ?s)"
    by blast
  with view have r: "filteredData (sortTable jakarta ''sla'' ?s) = [rec_old, rec_acme, rec_undated]"
    by simp
  from t col dir have d: "sortDirection (sortTable jakarta ''sla'' ?s) = Desc"
    by simp
  have num: "''sla'' \<in> set numeric_columns"
    by (simp add: numeric_columns_def)
  have keys: "map (num_key ''sla'') (filteredData loaded) = [Fin 80, Fin 160, Fin 40]"
    by (simp add: num_key_def get_column_def loaded_def rec_acme_def rec_old_def
          rec_undated_def)
  then have "distinct (map (num_key ''sla'') (filteredData loaded))"
    by simp
  with sortTable_toggle [where s = loaded and column = "''sla''" and env = jakarta] num
  have twice: "filteredData (sortTable jakarta ''sla'' ?s) = rev (filteredData ?s)"
    by blast
  have other: "sortColumn loaded \<noteq> Some ''poDate''"
    by (simp add: loaded_def)
  with sortTable_toggle [where s = loaded and column = "''poDate''" and env = jakarta]
  have asc: "sortDirection (sortTable jakarta ''poDate'' loaded) = Asc"
    by blast
  from col ordered view r d num keys twice other asc show ?thesis
    by (intro conjI)
qed

end
